theory Spec2Isabelle
  imports Main "HOL-Library.AList"
begin

section \<open>The world the two scripts run in\<close>

text \<open>
  Both scripts are sequences of file-system, network and subprocess calls. The model
  threads a \<open>world\<close> through them: the store of regular files, keyed by the string of
  their \<^verbatim>\<open>pathlib.Path\<close>, and the trace of the effectful calls made so far, in order.
  Directories are implicit in the keys of the store, so \<^verbatim>\<open>mkdir(parents=True,
  exist_ok=True)\<close> leaves the store as it is. Progress bars and \<^verbatim>\<open>print\<close> are not
  modelled.

  What the Python standard library, \<^verbatim>\<open>requests\<close> and the operating system do is not
  code of the repository: it enters as the fields of the record \<open>env\<close>.
\<close>

type_synonym path = string
type_synonym bytes = string
type_synonym store = "path \<rightharpoonup> bytes"

datatype event =
    HttpGet string
  | TempFile path
  | Move path path
  | Sha256 path string
  | ExtractAll path path
  | Unlink path
  | Run "string list" int

record world =
  files :: store
  trace :: "event list"

datatype error =
    RuntimeError string
  | FileNotFoundError path
  | KeyError string
  | ValueError
  | ConnectionError
  | HTTPError nat
  | ReadError path
  | CalledProcessError int "string list"

text \<open>
  A streamed HTTP response: no response at all, or a status code, the chunks that
  arrived and whether the stream ended cleanly.
\<close>

datatype response = NoResponse | Response nat "bytes list" bool

text \<open>A member of a tar archive, as far as the scripts look at it: \<^verbatim>\<open>m.name\<close>,
  \<^verbatim>\<open>m.isfile()\<close> and the payload that extraction writes.\<close>

record member =
  m_name :: string
  m_isfile :: bool
  m_data :: bytes

record env =
  base_path :: path
  http :: "event list \<Rightarrow> string \<Rightarrow> response"
  sha256 :: "bytes \<Rightarrow> string"
  tar_members :: "bytes \<Rightarrow> member list option"
  csv_reader :: "bytes \<Rightarrow> string list list"
  tmp_name :: "path \<Rightarrow> store \<Rightarrow> path"

type_synonym 'a result = "(error + 'a) \<times> world"

section \<open>Paths\<close>

text \<open>
  A \<open>path\<close> is the string \<^verbatim>\<open>str(p)\<close> of a \<^verbatim>\<open>pathlib\<close> object, so it is already
  normalised. \<open>path_join\<close> is the operator \<^verbatim>\<open>/\<close> on such strings: an absolute right
  operand replaces the left one. \<open>path_name\<close> and \<open>path_stem\<close> are \<^verbatim>\<open>Path.name\<close> and
  \<^verbatim>\<open>Path.stem\<close> (the final component, and that component without its last suffix;
  a leading or a trailing dot starts no suffix).
\<close>

definition path_join :: "path \<Rightarrow> string \<Rightarrow> path" where
  "path_join d s = (if s = [] then d else if hd s = CHR ''/'' then s else d @ ''/'' @ s)"

definition path_name :: "path \<Rightarrow> string" where
  "path_name p = rev (takeWhile (\<lambda>c. c \<noteq> CHR ''/'') (rev p))"

definition path_parent :: "path \<Rightarrow> path" where
  "path_parent p =
     (let d = rev (drop 1 (dropWhile (\<lambda>c. c \<noteq> CHR ''/'') (rev p)))
      in if CHR ''/'' \<notin> set p then ''.'' else if d = [] then ''/'' else d)"

definition rfind :: "char \<Rightarrow> string \<Rightarrow> int" where
  "rfind c s =
     (if c \<in> set s then int (length s) - 1 - int (length (takeWhile (\<lambda>x. x \<noteq> c) (rev s)))
      else - 1)"

definition path_stem :: "path \<Rightarrow> string" where
  "path_stem p =
     (let n = path_name p; i = rfind (CHR ''.'') n
      in if 0 < i \<and> i < int (length n) - 1 then take (nat i) n else n)"

section \<open>download.py\<close>

subsection \<open>Constants\<close>

definition SEED :: int where "SEED = 42"
definition DATASET :: string where "DATASET = ''raw_30s''"
definition DATA_TYPE :: string where "DATA_TYPE = ''audio-low''"
definition BASE_URL :: string where "BASE_URL = ''https://cdn.freesound.org/mtg-jamendo''"

definition ASSETS_DIR :: "env \<Rightarrow> path" where
  "ASSETS_DIR E = path_join (base_path E) ''../assets''"

definition OUTPUT_DIR :: "env \<Rightarrow> path" where
  "OUTPUT_DIR E = path_join (base_path E) ''../data/audio''"

definition SHA256_TARS_FILE :: "env \<Rightarrow> path" where
  "SHA256_TARS_FILE E = path_join (ASSETS_DIR E) ''raw_30s_audio-low_sha256_tars.txt''"

definition SHA256_TRACKS_FILE :: "env \<Rightarrow> path" where
  "SHA256_TRACKS_FILE E = path_join (ASSETS_DIR E) ''raw_30s_audio-low_sha256_tracks.txt''"

subsection \<open>Helpers\<close>

text \<open>\<^verbatim>\<open>Path.unlink()\<close> and \<^verbatim>\<open>Path.unlink(missing_ok=True)\<close>.\<close>

definition unlink :: "path \<Rightarrow> world \<Rightarrow> unit result" where
  "unlink p w =
     (if files w p = None then (Inl (FileNotFoundError p), w)
      else (Inr (), w\<lparr>files := (files w)(p := None), trace := trace w @ [Unlink p]\<rparr>))"

definition unlink_missing_ok :: "path \<Rightarrow> world \<Rightarrow> world" where
  "unlink_missing_ok p w = w\<lparr>files := (files w)(p := None), trace := trace w @ [Unlink p]\<rparr>"

definition compute_sha256 :: "env \<Rightarrow> path \<Rightarrow> world \<Rightarrow> string result" where
  "compute_sha256 E p w =
     (case files w p of
        None \<Rightarrow> (Inl (FileNotFoundError p), w)
      | Some b \<Rightarrow> (Inr (sha256 E b), w\<lparr>trace := trace w @ [Sha256 p (sha256 E b)]\<rparr>))"

text \<open>
  \<open>download_file\<close>: the request, \<^verbatim>\<open>raise_for_status\<close>, the temporary file beside the
  destination that receives the non-empty chunks, and the move into place. A stream that
  breaks leaves the temporary file behind (\<^verbatim>\<open>delete=False\<close>) and the destination absent.
  The \<^verbatim>\<open>Content-Length\<close> header only feeds the progress bar and is left out.
\<close>

definition download_file :: "env \<Rightarrow> string \<Rightarrow> path \<Rightarrow> world \<Rightarrow> unit result" where
  "download_file E url dest w =
     (let w1 = w\<lparr>trace := trace w @ [HttpGet url]\<rparr>
      in case http E (trace w) url of
           NoResponse \<Rightarrow> (Inl ConnectionError, w1)
         | Response status chunks complete \<Rightarrow>
             if 400 \<le> status \<and> status < 600 then (Inl (HTTPError status), w1)
             else
               let tmp = tmp_name E (path_parent dest) (files w1);
                   body = concat (filter (\<lambda>chunk. chunk \<noteq> []) chunks);
                   w2 = w1\<lparr>files := (files w1)(tmp \<mapsto> body), trace := trace w1 @ [TempFile tmp]\<rparr>
               in if \<not> complete then (Inl ConnectionError, w2)
                  else (Inr (), w2\<lparr>files := ((files w2)(tmp := None))(dest \<mapsto> body),
                                   trace := trace w2 @ [Move tmp dest]\<rparr>))"

text \<open>
  The manifests. The dictionary comprehension \<^verbatim>\<open>{name: sha for sha, name in rows}\<close>
  unpacks every row into exactly two fields (anything else is a \<^verbatim>\<open>ValueError\<close>) and
  builds a Python dict: an association list in insertion order, where storing under a
  key that is present replaces the value in place.
\<close>

fun dict_of_rows :: "string list list \<Rightarrow> (string \<times> string) list \<Rightarrow> error + (string \<times> string) list" where
  "dict_of_rows [] d = Inr d"
| "dict_of_rows ([sha, name] # rows) d = dict_of_rows rows (AList.update name sha d)"
| "dict_of_rows (_ # rows) d = Inl ValueError"

definition load_checksums :: "env \<Rightarrow> path \<Rightarrow> world \<Rightarrow> error + (string \<times> string) list" where
  "load_checksums E file w =
     (case files w file of
        None \<Rightarrow> Inl (FileNotFoundError file)
      | Some b \<Rightarrow> dict_of_rows (csv_reader E b) [])"

definition load_tar_checksums :: "env \<Rightarrow> world \<Rightarrow> error + (string \<times> string) list" where
  "load_tar_checksums E w = load_checksums E (SHA256_TARS_FILE E) w"

definition load_track_checksums :: "env \<Rightarrow> world \<Rightarrow> error + (string \<times> string) list" where
  "load_track_checksums E w = load_checksums E (SHA256_TRACKS_FILE E) w"

text \<open>
  \<^verbatim>\<open>tar.extractall(OUTPUT_DIR)\<close> on the store of regular files: every regular member is
  written under the output root, in archive order, a later member of the same name
  replacing an earlier one. Members that are not regular files (directories, links)
  leave no regular file, and the extraction of an archive that could be opened is taken
  to succeed.
\<close>

fun extractall :: "path \<Rightarrow> member list \<Rightarrow> store \<Rightarrow> store" where
  "extractall out [] fs = fs"
| "extractall out (m # ms) fs =
     extractall out ms (if m_isfile m then fs(path_join out (m_name m) \<mapsto> m_data m) else fs)"

text \<open>The loop of \<open>unpack_and_verify\<close> over the members (lines 89 to 98).\<close>

fun verify_members :: "env \<Rightarrow> (string \<times> string) list \<Rightarrow> member list \<Rightarrow> world \<Rightarrow> unit result" where
  "verify_members E track_checksums [] w = (Inr (), w)"
| "verify_members E track_checksums (m # ms) w =
     (if \<not> m_isfile m then verify_members E track_checksums ms w
      else case map_of track_checksums (m_name m) of
             None \<Rightarrow> verify_members E track_checksums ms w
           | Some d \<Rightarrow>
               let p = path_join (OUTPUT_DIR E) (m_name m)
               in (case compute_sha256 E p w of
                     (Inl e, w') \<Rightarrow> (Inl e, w')
                   | (Inr h, w') \<Rightarrow>
                       if h \<noteq> d then (Inl (RuntimeError (''Checksum mismatch: '' @ p)), w')
                       else verify_members E track_checksums ms w'))"

definition unpack_and_verify :: "env \<Rightarrow> path \<Rightarrow> (string \<times> string) list \<Rightarrow> world \<Rightarrow> unit result" where
  "unpack_and_verify E tar_path track_checksums w =
     (case files w tar_path of
        None \<Rightarrow> (Inl (FileNotFoundError tar_path), w)
      | Some b \<Rightarrow>
          (case tar_members E b of
             None \<Rightarrow> (Inl (ReadError tar_path), w)
           | Some members \<Rightarrow>
               verify_members E track_checksums members
                 (w\<lparr>files := extractall (OUTPUT_DIR E) members (files w),
                    trace := trace w @ [ExtractAll tar_path (OUTPUT_DIR E)]\<rparr>)))"

subsection \<open>Core logic\<close>

text \<open>
  \<open>fetch_and_verify\<close> is the body of the loop of \<^verbatim>\<open>_download_tars\<close> (lines 110 to 123):
  what the script does for one archive name. In line 118 the hash is computed before
  the manifest is indexed, so a name missing from the manifest is a \<^verbatim>\<open>KeyError\<close> after
  the download.
\<close>

definition tar_url :: "string \<Rightarrow> string" where
  "tar_url tar_name = BASE_URL @ ''/'' @ DATASET @ ''/'' @ DATA_TYPE @ ''/'' @ tar_name"

definition fetch_and_verify ::
  "env \<Rightarrow> (string \<times> string) list \<Rightarrow> (string \<times> string) list \<Rightarrow> string \<Rightarrow> world \<Rightarrow> unit result" where
  "fetch_and_verify E tar_checksums track_checksums tar_name w =
     (let tar_path = path_join (OUTPUT_DIR E) tar_name
      in if files w tar_path \<noteq> None then (Inr (), w)
         else
           case download_file E (tar_url tar_name) tar_path w of
             (Inl e, w1) \<Rightarrow> (Inl e, w1)
           | (Inr _, w1) \<Rightarrow>
               (case compute_sha256 E tar_path w1 of
                  (Inl e, w2) \<Rightarrow> (Inl e, w2)
                | (Inr h, w2) \<Rightarrow>
                    (case map_of tar_checksums tar_name of
                       None \<Rightarrow> (Inl (KeyError tar_name), w2)
                     | Some d \<Rightarrow>
                         if h \<noteq> d
                         then (Inl (RuntimeError (''Bad checksum for '' @ tar_name)),
                               unlink_missing_ok tar_path w2)
                         else
                           (case unpack_and_verify E tar_path track_checksums w2 of
                              (Inl e, w3) \<Rightarrow> (Inl e, w3)
                            | (Inr _, w3) \<Rightarrow> unlink tar_path w3))))"

fun download_loop ::
  "env \<Rightarrow> (string \<times> string) list \<Rightarrow> (string \<times> string) list \<Rightarrow> string list \<Rightarrow> world \<Rightarrow> unit result" where
  "download_loop E tar_checksums track_checksums [] w = (Inr (), w)"
| "download_loop E tar_checksums track_checksums (tar_name # rest) w =
     (case fetch_and_verify E tar_checksums track_checksums tar_name w of
        (Inl e, w') \<Rightarrow> (Inl e, w')
      | (Inr _, w') \<Rightarrow> download_loop E tar_checksums track_checksums rest w')"

definition download_tars :: "env \<Rightarrow> string list \<Rightarrow> world \<Rightarrow> unit result" where
  "download_tars E tar_names w =
     (case load_tar_checksums E w of
        Inl e \<Rightarrow> (Inl e, w)
      | Inr tar_checksums \<Rightarrow>
          (case load_track_checksums E w of
             Inl e \<Rightarrow> (Inl e, w)
           | Inr track_checksums \<Rightarrow> download_loop E tar_checksums track_checksums tar_names w))"

subsection \<open>Sampling\<close>

text \<open>
  Line 146 computes \<^verbatim>\<open>int(len(tar_names) * 0.05)\<close> in binary64. A non-negative finite
  double is a pair \<open>(m, e)\<close> standing for \<open>m * 2 ^ e\<close>; \<open>round53\<close> rounds to 53
  significant bits, ties to even, which is what the conversion of an \<^verbatim>\<open>int\<close> and the
  multiplication do. \<open>five_percent\<close> is the double nearest to 0.05,
  \<^verbatim>\<open>0x1.999999999999ap-5\<close>. Overflow and subnormal numbers are out of reach of the
  length of a list and are left out. \<open>bit_length\<close> is \<^verbatim>\<open>int.bit_length\<close>.
\<close>

type_synonym double = "nat \<times> int"

fun bit_length :: "nat \<Rightarrow> nat" where
  "bit_length n = (if n = 0 then 0 else Suc (bit_length (n div 2)))"

declare bit_length.simps [simp del]

definition round53 :: "nat \<Rightarrow> int \<Rightarrow> double" where
  "round53 m e =
     (let l = bit_length m
      in if l \<le> 53 then (m, e)
         else
           let s = l - 53; q = m div 2 ^ s; r = m mod 2 ^ s; h = 2 ^ (s - 1)
           in (if h < r \<or> (r = h \<and> odd q) then q + 1 else q, e + int s))"

definition float_of_nat :: "nat \<Rightarrow> double" where
  "float_of_nat n = round53 n 0"

definition float_mul :: "double \<Rightarrow> double \<Rightarrow> double" where
  "float_mul x y = round53 (fst x * fst y) (snd x + snd y)"

definition int_of_float :: "double \<Rightarrow> nat" where
  "int_of_float x =
     (if 0 \<le> snd x then fst x * 2 ^ nat (snd x) else fst x div 2 ^ nat (- snd x))"

definition five_percent :: double where
  "five_percent = (7205759403792794, - 57)"

definition sample_size :: "nat \<Rightarrow> nat" where
  "sample_size n = max 1 (int_of_float (float_mul (float_of_nat n) five_percent))"

text \<open>
  The module \<^verbatim>\<open>random\<close>. The generator algorithm (the Mersenne Twister) is a parameter:
  how a seed becomes a generator state, and \<^verbatim>\<open>_randbelow\<close>, which returns a number
  below its argument and the next state. Python keeps one hidden generator behind the
  module-level functions (\<^verbatim>\<open>random.shuffle\<close>, \<^verbatim>\<open>random.random\<close>, ...), shared by
  everything that runs in the process; its state is threaded through the sampling as
  \<open>gi\<close>. \<open>Random\<close> is the constructor \<^verbatim>\<open>random.Random(seed)\<close>: a generator of its own,
  whose state comes from the seed alone. \<open>shuffle\<close> is the method \<^verbatim>\<open>shuffle\<close> of a
  generator in state \<open>g\<close>, CPython's loop \<^verbatim>\<open>for i in reversed(range(1, len(x))):
  j = randbelow(i + 1); x[i], x[j] = x[j], x[i]\<close>; it returns the list and the state in
  which it leaves the generator.
\<close>

record 'g rng =
  seed_rng :: "int \<Rightarrow> 'g"
  randbelow :: "nat \<Rightarrow> 'g \<Rightarrow> nat \<times> 'g"

definition Random :: "'g rng \<Rightarrow> int \<Rightarrow> 'g" where
  "Random R seed = seed_rng R seed"

fun shuffle_loop ::
  "(nat \<Rightarrow> 'g \<Rightarrow> nat \<times> 'g) \<Rightarrow> nat \<Rightarrow> 'g \<Rightarrow> 'a list \<Rightarrow> 'a list \<times> 'g" where
  "shuffle_loop rb 0 g x = (x, g)"
| "shuffle_loop rb (Suc n) g x =
     (case rb (Suc n + 1) g of
        (j, g') \<Rightarrow> shuffle_loop rb n g' (x[Suc n := x ! j, j := x ! Suc n]))"

definition shuffle :: "'g rng \<Rightarrow> 'g \<Rightarrow> 'a list \<Rightarrow> 'a list \<times> 'g" where
  "shuffle R g x = shuffle_loop (randbelow R) (length x - 1) g x"

text \<open>
  \<open>select_sample\<close> is lines 142 to 147 of \<^verbatim>\<open>download_sample\<close>, with the module constant
  \<^verbatim>\<open>SEED\<close> as an argument: the names of the archive manifest in dictionary order,
  shuffled by a generator constructed from the seed in line 145, and the first \<open>k\<close> of
  them. It runs in a world \<open>w\<close> and with the shared generator of the process in state
  \<open>gi\<close>, and returns the sample (or the error) and the state of the shared generator
  afterwards. The generator of line 145 is dropped after the shuffle.
\<close>

definition select_sample ::
  "'g rng \<Rightarrow> env \<Rightarrow> int \<Rightarrow> world \<Rightarrow> 'g \<Rightarrow> (error + string list) \<times> 'g" where
  "select_sample R E seed w gi =
     (case load_tar_checksums E w of
        Inl e \<Rightarrow> (Inl e, gi)
      | Inr tar_checksums \<Rightarrow>
          let tar_names = map fst tar_checksums;
              (shuffled, g') = shuffle R (Random R seed) tar_names;
              k = sample_size (length tar_names)
          in (Inr (take k shuffled), gi))"

text \<open>
  For comparison only, not code of the script: the same lines with the module-level
  \<^verbatim>\<open>random.shuffle(tar_names)\<close> in the place of line 145. It draws from the shared
  generator and leaves it advanced.
\<close>

definition select_sample_shared ::
  "'g rng \<Rightarrow> env \<Rightarrow> world \<Rightarrow> 'g \<Rightarrow> (error + string list) \<times> 'g" where
  "select_sample_shared R E w gi =
     (case load_tar_checksums E w of
        Inl e \<Rightarrow> (Inl e, gi)
      | Inr tar_checksums \<Rightarrow>
          let tar_names = map fst tar_checksums;
              (shuffled, gi') = shuffle R gi tar_names;
              k = sample_size (length tar_names)
          in (Inr (take k shuffled), gi'))"

subsection \<open>Public API\<close>

definition download :: "env \<Rightarrow> world \<Rightarrow> unit result" where
  "download E w =
     (case load_tar_checksums E w of
        Inl e \<Rightarrow> (Inl e, w)
      | Inr tar_checksums \<Rightarrow> download_tars E (map fst tar_checksums) w)"

definition download_sample :: "'g rng \<Rightarrow> env \<Rightarrow> world \<Rightarrow> 'g \<Rightarrow> unit result \<times> 'g" where
  "download_sample R E w gi =
     (case select_sample R E SEED w gi of
        (Inl e, gi') \<Rightarrow> ((Inl e, w), gi')
      | (Inr sample, gi') \<Rightarrow> (download_tars E sample w, gi'))"

section \<open>convert.py\<close>

definition SRC_DIR :: path where "SRC_DIR = ''data/audio/mp3''"
definition DST_DIR :: path where "DST_DIR = ''data/audio/wav''"
definition SAMPLE_RATE :: nat where "SAMPLE_RATE = 16000"
definition CHANNELS :: nat where "CHANNELS = 1"
definition SAMPLE_FMT :: string where "SAMPLE_FMT = ''pcm_s16le''"
definition MAX_WORKERS :: nat where "MAX_WORKERS = 6"

text \<open>\<^verbatim>\<open>str\<close> of a non-negative integer.\<close>

fun str_nat :: "nat \<Rightarrow> string" where
  "str_nat n =
     (if n < 10 then [''0123456789'' ! n]
      else str_nat (n div 10) @ [''0123456789'' ! (n mod 10)])"

declare str_nat.simps [simp del]

text \<open>
  The external program is a parameter: given the argument list and the store it finds,
  it either cannot be started or exits with a return code, leaving a store behind.
  \<open>subprocess_run\<close> is \<^verbatim>\<open>subprocess.run(cmd, check=True)\<close>.
\<close>

type_synonym process = "string list \<Rightarrow> store \<Rightarrow> (int \<times> store) option"

definition subprocess_run :: "process \<Rightarrow> string list \<Rightarrow> world \<Rightarrow> unit result" where
  "subprocess_run P cmd w =
     (case P cmd (files w) of
        None \<Rightarrow> (Inl (FileNotFoundError (concat (take 1 cmd))), w)
      | Some (rc, fs') \<Rightarrow>
          let w1 = w\<lparr>files := fs', trace := trace w @ [Run cmd rc]\<rparr>
          in if rc \<noteq> 0 then (Inl (CalledProcessError rc cmd), w1) else (Inr (), w1))"

text \<open>Line 24 and lines 26 to 36 of \<open>convert_one\<close>: the destination and the command.\<close>

definition convert_dst :: "path \<Rightarrow> path" where
  "convert_dst src = path_join DST_DIR (path_stem src @ ''.wav'')"

definition convert_cmd :: "path \<Rightarrow> string list" where
  "convert_cmd src =
     [''ffmpeg'', ''-y'', ''-loglevel'', ''error'', ''-i'', src,
      ''-ac'', str_nat CHANNELS, ''-ar'', str_nat SAMPLE_RATE,
      ''-sample_fmt'', ''s16'', ''-c:a'', SAMPLE_FMT, convert_dst src]"

definition convert_one :: "process \<Rightarrow> path \<Rightarrow> world \<Rightarrow> string result" where
  "convert_one P src w =
     (case subprocess_run P (convert_cmd src) w of
        (Inl e, w1) \<Rightarrow> (Inl e, w1)
      | (Inr _, w1) \<Rightarrow>
          (case unlink src w1 of
             (Inl e, w2) \<Rightarrow> (Inl e, w2)
           | (Inr _, w2) \<Rightarrow> (Inr (path_name src), w2)))"

section \<open>Properties of traces and stores\<close>

text \<open>
  \<open>extraction_guarded\<close>: in a run of events, every extraction of an archive comes
  directly after a hash of the same archive file whose digest is the one the archive
  manifest records for one of the requested names.
\<close>

definition extraction_guarded ::
  "(string \<times> string) list \<Rightarrow> path \<Rightarrow> string list \<Rightarrow> event list \<Rightarrow> bool" where
  "extraction_guarded tar_checksums out tar_names evs \<longleftrightarrow>
     (\<forall>i<length evs. \<forall>p q. evs ! i = ExtractAll p q \<longrightarrow>
        0 < i \<and> (\<exists>n d. n \<in> set tar_names \<and> map_of tar_checksums n = Some d \<and>
                   p = path_join out n \<and> evs ! (i - 1) = Sha256 p d))"

definition is_hash :: "event \<Rightarrow> bool" where
  "is_hash e = (case e of Sha256 p d \<Rightarrow> True | _ \<Rightarrow> False)"

definition is_extraction :: "event \<Rightarrow> bool" where
  "is_extraction e = (case e of ExtractAll p q \<Rightarrow> True | _ \<Rightarrow> False)"

text \<open>The digest of what is on disk at a path, if there is a file.\<close>

definition disk_digest :: "env \<Rightarrow> store \<Rightarrow> path \<Rightarrow> string option" where
  "disk_digest E fs p = map_option (sha256 E) (fs p)"

text \<open>The hash events that hashing the files at the given paths leaves in the trace,
  one for each path that holds a file.\<close>

fun hash_events :: "env \<Rightarrow> store \<Rightarrow> path list \<Rightarrow> event list" where
  "hash_events E fs [] = []"
| "hash_events E fs (p # ps) =
     (case fs p of
        None \<Rightarrow> hash_events E fs ps
      | Some b \<Rightarrow> Sha256 p (sha256 E b) # hash_events E fs ps)"

text \<open>A member that the verification loop looks at: a regular file listed in the
  track manifest.\<close>

definition checked :: "(string \<times> string) list \<Rightarrow> member \<Rightarrow> bool" where
  "checked track_checksums m \<longleftrightarrow> m_isfile m \<and> map_of track_checksums (m_name m) \<noteq> None"

section \<open>A small concrete world\<close>

text \<open>
  One archive \<^verbatim>\<open>a.tar\<close> of four members, served in three chunks, and manifests for
  it. The stand-in for SHA-256 reverses the content. \<open>E1\<close> serves a damaged archive;
  \<open>tracks2\<close> lists a digest for the second track that the extracted file does not have.
\<close>

definition members0 :: "member list" where
  "members0 =
     [\<lparr>m_name = ''00'', m_isfile = False, m_data = []\<rparr>,
      \<lparr>m_name = ''00/1.mp3'', m_isfile = True, m_data = ''one''\<rparr>,
      \<lparr>m_name = ''00/2.mp3'', m_isfile = True, m_data = ''two''\<rparr>,
      \<lparr>m_name = ''00/3.mp3'', m_isfile = True, m_data = ''three''\<rparr>]"

definition E0 :: env where
  "E0 = \<lparr>base_path = ''/repo/scripts'',
         http = (\<lambda>tr url. if url = tar_url ''a.tar'' then Response 200 [''ta'', [], ''r''] True
                           else NoResponse),
         sha256 = rev,
         tar_members = (\<lambda>b. if b = ''tar'' then Some members0 else None),
         csv_reader = (\<lambda>b. if b = ''tars'' then [[''rat'', ''a.tar''], [''x'', ''b.tar'']]
                            else [[''eno'', ''00/1.mp3''], [''owt'', ''00/2.mp3'']]),
         tmp_name = (\<lambda>d fs. path_join d ''tmpab12'')\<rparr>"

definition E1 :: env where
  "E1 = E0\<lparr>http := (\<lambda>tr url. Response 200 [''bad''] True)\<rparr>"

definition tars0 :: "(string \<times> string) list" where
  "tars0 = [(''a.tar'', ''rat''), (''b.tar'', ''x'')]"

definition tracks0 :: "(string \<times> string) list" where
  "tracks0 = [(''00/1.mp3'', ''eno''), (''00/2.mp3'', ''owt'')]"

definition tracks2 :: "(string \<times> string) list" where
  "tracks2 = [(''00/1.mp3'', ''eno''), (''00/2.mp3'', ''zzz'')]"

definition w0 :: world where
  "w0 = \<lparr>files = [''/repo/scripts/../assets/raw_30s_audio-low_sha256_tars.txt'' \<mapsto> ''tars'',
                  ''/repo/scripts/../assets/raw_30s_audio-low_sha256_tracks.txt'' \<mapsto> ''tracks''],
         trace = []\<rparr>"

definition w1 :: world where
  "w1 = w0\<lparr>files := (files w0)(''/repo/scripts/../data/audio/a.tar'' \<mapsto> ''left over'')\<rparr>"

definition R0 :: "nat rng" where
  "R0 = \<lparr>seed_rng = nat, randbelow = (\<lambda>n g. (g mod n, g + 7))\<rparr>"

text \<open>A transcoder that writes its last argument when its input exists and fails
  otherwise.\<close>

definition P0 :: process where
  "P0 cmd fs =
     (case fs (cmd ! 5) of
        None \<Rightarrow> Some (1, fs)
      | Some b \<Rightarrow> Some (0, fs(last cmd \<mapsto> ''RIFF'' @ b)))"

definition c0 :: world where
  "c0 = \<lparr>files = [''data/audio/mp3/a/track.mp3'' \<mapsto> ''ID3''], trace = []\<rparr>"

section \<open>The fetcher, archive by archive\<close>

text \<open>
  C7. When the local archive file of a name already exists, \<open>fetch_and_verify\<close> does
  nothing for that name: it returns normally and the world is the one it started in,
  files and trace alike, so no request, no hash, no extraction and no deletion happened.
\<close>

theorem fetch_and_verify_existing_noop:
  assumes "files w (path_join (OUTPUT_DIR E) tar_name) \<noteq> None"
  shows "fetch_and_verify E tar_checksums track_checksums tar_name w = (Inr (), w)"
  using assms by (simp add: fetch_and_verify_def)

theorem fetch_and_verify_existing_noop_witness:
  "files w1 (path_join (OUTPUT_DIR E0) ''a.tar'') \<noteq> None \<and>
   fetch_and_verify E0 tars0 tracks0 ''a.tar'' w1 = (Inr (), w1)"
proof -
  have h: "files w1 (path_join (OUTPUT_DIR E0) ''a.tar'') \<noteq> None"
    by (simp add: w1_def w0_def OUTPUT_DIR_def path_join_def E0_def)
  show ?thesis using h fetch_and_verify_existing_noop [OF h] by simp
qed

subsection \<open>What the helpers do to the world\<close>

lemma compute_sha256_Inr:
  "compute_sha256 E p w = (Inr h, w') \<Longrightarrow>
     disk_digest E (files w) p = Some h \<and> w' = w\<lparr>trace := trace w @ [Sha256 p h]\<rparr>"
  by (auto simp: compute_sha256_def disk_digest_def split: option.splits)

lemma compute_sha256_Inl:
  "compute_sha256 E p w = (Inl e, w') \<Longrightarrow> w' = w \<and> files w p = None"
  by (auto simp: compute_sha256_def split: option.splits)

lemma compute_sha256_digest:
  "disk_digest E (files w) p = Some h \<Longrightarrow>
     compute_sha256 E p w = (Inr h, w\<lparr>trace := trace w @ [Sha256 p h]\<rparr>)"
  by (auto simp: compute_sha256_def disk_digest_def split: option.splits)

lemma download_file_trace:
  "download_file E url dest w = (r, w') \<Longrightarrow>
     \<exists>evs. trace w' = trace w @ evs \<and> (\<forall>e\<in>set evs. \<not> is_extraction e)"
  by (auto simp: download_file_def Let_def is_extraction_def split: response.splits if_splits)

lemma download_file_Inr:
  "download_file E url dest w = (Inr u, w') \<Longrightarrow> files w' dest \<noteq> None"
  by (auto simp: download_file_def Let_def split: response.splits if_splits)

lemma verify_members_effect:
  "verify_members E tc ms w = (r, w') \<Longrightarrow>
     files w' = files w \<and> (\<exists>evs. trace w' = trace w @ evs \<and> (\<forall>e\<in>set evs. is_hash e))"
proof (induction ms arbitrary: w)
  case Nil
  then show ?case by simp
next
  case (Cons m ms)
  show ?case
  proof (cases "checked tc m")
    case False
    then have "verify_members E tc (m # ms) w = verify_members E tc ms w"
      by (auto simp: checked_def)
    with Cons show ?thesis by simp
  next
    case True
    then obtain d where d: "m_isfile m" "map_of tc (m_name m) = Some d"
      by (auto simp: checked_def)
    let ?p = "path_join (OUTPUT_DIR E) (m_name m)"
    obtain r1 w1 where c: "compute_sha256 E ?p w = (r1, w1)" by (cases "compute_sha256 E ?p w")
    show ?thesis
    proof (cases r1)
      case (Inl e)
      with c have "w1 = w" by (simp add: compute_sha256_Inl)
      with Cons.prems d c Inl show ?thesis by (auto simp: Let_def)
    next
      case (Inr h)
      with c have w1: "w1 = w\<lparr>trace := trace w @ [Sha256 ?p h]\<rparr>"
        by (simp add: compute_sha256_Inr)
      show ?thesis
      proof (cases "h = d")
        case False
        with Cons.prems d c Inr w1 show ?thesis by (auto simp: is_hash_def Let_def)
      next
        case True
        with Cons.prems d c Inr have "verify_members E tc ms w1 = (r, w')" by (simp add: Let_def)
        from Cons.IH [OF this] w1 show ?thesis by (auto simp: is_hash_def)
      qed
    qed
  qed
qed

lemma fixture_paths:
  "OUTPUT_DIR E0 = ''/repo/scripts/../data/audio''"
  "OUTPUT_DIR E1 = ''/repo/scripts/../data/audio''"
  "path_join ''/repo/scripts/../data/audio'' ''a.tar'' = ''/repo/scripts/../data/audio/a.tar''"
  "tar_url ''a.tar'' = ''https://cdn.freesound.org/mtg-jamendo/raw_30s/audio-low/a.tar''"
  by (simp_all add: OUTPUT_DIR_def E0_def E1_def path_join_def tar_url_def BASE_URL_def DATASET_def DATA_TYPE_def)

subsection \<open>A damaged archive\<close>

text \<open>
  C1. Take an archive name whose file is not yet on disk, whose download succeeds, and
  whose downloaded file hashes to something else than the digest the archive manifest
  records for the name. Then \<open>fetch_and_verify\<close> raises the checksum error of line 120
  (\<^verbatim>\<open>RuntimeError("Bad checksum for ...")\<close>, the integrity error of the archive level),
  and in the world it leaves the destination path holds no file: the only thing done
  after the hash is the deletion of the downloaded file.
\<close>

theorem bad_archive_deleted:
  assumes "files w (path_join (OUTPUT_DIR E) tar_name) = None"
    and "download_file E (tar_url tar_name) (path_join (OUTPUT_DIR E) tar_name) w = (Inr (), wa)"
    and "compute_sha256 E (path_join (OUTPUT_DIR E) tar_name) wa = (Inr h, wb)"
    and "map_of tar_checksums tar_name = Some d"
    and "h \<noteq> d"
  shows "\<exists>w'. fetch_and_verify E tar_checksums track_checksums tar_name w =
           (Inl (RuntimeError (''Bad checksum for '' @ tar_name)), w') \<and>
         files w' (path_join (OUTPUT_DIR E) tar_name) = None \<and>
         files w' = (files wa)(path_join (OUTPUT_DIR E) tar_name := None) \<and>
         trace w' = trace wa @ [Sha256 (path_join (OUTPUT_DIR E) tar_name) h,
                                Unlink (path_join (OUTPUT_DIR E) tar_name)]"
proof -
  from assms(3) have "wb = wa\<lparr>trace := trace wa @ [Sha256 (path_join (OUTPUT_DIR E) tar_name) h]\<rparr>"
    by (simp add: compute_sha256_Inr)
  with assms show ?thesis
    by (simp add: fetch_and_verify_def unlink_missing_ok_def Let_def)
qed

theorem bad_archive_deleted_witness:
  "\<exists>w'. fetch_and_verify E1 tars0 tracks0 ''a.tar'' w0 =
           (Inl (RuntimeError ''Bad checksum for a.tar''), w') \<and>
         files w' ''/repo/scripts/../data/audio/a.tar'' = None \<and>
         trace w' = [HttpGet ''https://cdn.freesound.org/mtg-jamendo/raw_30s/audio-low/a.tar'',
                     TempFile ''/repo/scripts/../data/audio/tmpab12'',
                     Move ''/repo/scripts/../data/audio/tmpab12'' ''/repo/scripts/../data/audio/a.tar'',
                     Sha256 ''/repo/scripts/../data/audio/a.tar'' ''dab'',
                     Unlink ''/repo/scripts/../data/audio/a.tar'']"
proof -
  let ?tp = "''/repo/scripts/../data/audio/a.tar''"
  let ?wa = "snd (download_file E1 (tar_url ''a.tar'') ?tp w0)"
  have tp: "path_join (OUTPUT_DIR E1) ''a.tar'' = ?tp" by (simp add: fixture_paths)
  have h1: "files w0 (path_join (OUTPUT_DIR E1) ''a.tar'') = None"
    unfolding tp by (simp add: w0_def)
  have h2: "download_file E1 (tar_url ''a.tar'') (path_join (OUTPUT_DIR E1) ''a.tar'') w0 = (Inr (), ?wa)"
    unfolding tp by (simp add: download_file_def E1_def E0_def Let_def)
  have tr: "trace ?wa = [HttpGet ''https://cdn.freesound.org/mtg-jamendo/raw_30s/audio-low/a.tar'',
                     TempFile ''/repo/scripts/../data/audio/tmpab12'',
                     Move ''/repo/scripts/../data/audio/tmpab12'' ''/repo/scripts/../data/audio/a.tar'']"
    by (simp add: download_file_def E1_def E0_def Let_def fixture_paths w0_def path_parent_def path_join_def)
  have h3: "compute_sha256 E1 (path_join (OUTPUT_DIR E1) ''a.tar'') ?wa =
      (Inr ''dab'', ?wa\<lparr>trace := trace ?wa @ [Sha256 ?tp ''dab'']\<rparr>)"
    unfolding tp by (simp add: compute_sha256_def download_file_def E1_def E0_def Let_def)
  have h4: "map_of tars0 ''a.tar'' = Some ''rat''" by (simp add: tars0_def)
  have h5: "''dab'' \<noteq> ''rat''" by simp
  from bad_archive_deleted [OF h1 h2 h3 h4 h5, of tracks0] tr show ?thesis
    unfolding tp by auto
qed

subsection \<open>Extraction and member verification\<close>

lemma extractall_keeps: "fs p \<noteq> None \<Longrightarrow> extractall out ms fs p \<noteq> None"
  by (induction ms arbitrary: fs) auto

lemma extractall_member:
  "m \<in> set ms \<Longrightarrow> m_isfile m \<Longrightarrow> extractall out ms fs (path_join out (m_name m)) \<noteq> None"
proof (induction ms arbitrary: fs)
  case Nil
  then show ?case by simp
next
  case (Cons a ms)
  show ?case
  proof (cases "m = a")
    case True
    with Cons.prems show ?thesis by (simp add: extractall_keeps)
  next
    case False
    with Cons show ?thesis by simp
  qed
qed

lemma hash_events_append:
  "hash_events E fs (ps @ qs) = hash_events E fs ps @ hash_events E fs qs"
  by (induction ps) (auto split: option.splits)

lemma hash_events_are_hashes: "\<forall>e\<in>set (hash_events E fs ps). is_hash e"
  by (induction ps) (auto simp: is_hash_def split: option.splits)

lemma unpack_and_verify_members:
  "files w tar_path = Some b \<Longrightarrow> tar_members E b = Some ms \<Longrightarrow>
   unpack_and_verify E tar_path track_checksums w =
     verify_members E track_checksums ms
       (w\<lparr>files := extractall (OUTPUT_DIR E) ms (files w),
          trace := trace w @ [ExtractAll tar_path (OUTPUT_DIR E)]\<rparr>)"
  by (simp add: unpack_and_verify_def)

lemma unpack_and_verify_effect:
  assumes "unpack_and_verify E tar_path track_checksums w = (r, w')"
  shows "(w' = w \<and> r \<noteq> Inr ()) \<or>
         (\<exists>b ms hs. files w tar_path = Some b \<and> tar_members E b = Some ms \<and>
            files w' = extractall (OUTPUT_DIR E) ms (files w) \<and>
            trace w' = trace w @ ExtractAll tar_path (OUTPUT_DIR E) # hs \<and>
            (\<forall>e\<in>set hs. is_hash e))"
proof (cases "files w tar_path")
  case None
  with assms show ?thesis by (auto simp: unpack_and_verify_def)
next
  case (Some b)
  show ?thesis
  proof (cases "tar_members E b")
    case None
    with Some assms show ?thesis by (auto simp: unpack_and_verify_def)
  next
    case (Some ms)
    let ?w1 = "w\<lparr>files := extractall (OUTPUT_DIR E) ms (files w),
                  trace := trace w @ [ExtractAll tar_path (OUTPUT_DIR E)]\<rparr>"
    from assms \<open>files w tar_path = Some b\<close> Some
    have "verify_members E track_checksums ms ?w1 = (r, w')"
      by (simp add: unpack_and_verify_members)
    from verify_members_effect [OF this] \<open>files w tar_path = Some b\<close> Some
    show ?thesis by auto
  qed
qed

lemma verify_members_prefix:
  assumes "\<forall>x\<in>set pre. checked tc x \<longrightarrow>
             disk_digest E (files w) (path_join (OUTPUT_DIR E) (m_name x)) = map_of tc (m_name x)"
  shows "verify_members E tc (pre @ rest) w =
         verify_members E tc rest
           (w\<lparr>trace := trace w @
                hash_events E (files w)
                  (map (\<lambda>x. path_join (OUTPUT_DIR E) (m_name x)) (filter (checked tc) pre))\<rparr>)"
  using assms
proof (induction pre arbitrary: w)
  case Nil
  then show ?case by simp
next
  case (Cons a pre)
  let ?p = "path_join (OUTPUT_DIR E) (m_name a)"
  show ?case
  proof (cases "checked tc a")
    case False
    then have "verify_members E tc ((a # pre) @ rest) w = verify_members E tc (pre @ rest) w"
      by (auto simp: checked_def)
    with Cons False show ?thesis by simp
  next
    case True
    then obtain d where d: "m_isfile a" "map_of tc (m_name a) = Some d"
      by (auto simp: checked_def)
    with Cons.prems True have dg: "disk_digest E (files w) ?p = Some d" by simp
    then obtain b where b: "files w ?p = Some b" "sha256 E b = d"
      by (auto simp: disk_digest_def)
    let ?w1 = "w\<lparr>trace := trace w @ [Sha256 ?p d]\<rparr>"
    have step: "verify_members E tc ((a # pre) @ rest) w = verify_members E tc (pre @ rest) ?w1"
      using d compute_sha256_digest [OF dg] by (simp add: Let_def)
    have "\<forall>x\<in>set pre. checked tc x \<longrightarrow>
             disk_digest E (files ?w1) (path_join (OUTPUT_DIR E) (m_name x)) = map_of tc (m_name x)"
      using Cons.prems by simp
    from Cons.IH [OF this] step True b show ?thesis by simp
  qed
qed

subsection \<open>A damaged member\<close>

text \<open>
  C6. Let the archive hold the members \<open>pre @ m # post\<close>, let every member of \<open>pre\<close> that
  is a regular file listed in the track manifest have the listed digest on disk after
  extraction, and let \<open>m\<close> be a regular file listed in the track manifest whose file on
  disk has another digest. Then \<open>unpack_and_verify\<close> raises the checksum error of line 98
  with the path of \<open>m\<close> in its message. The hashes computed are those of the regular,
  listed members up to and including \<open>m\<close>, in order, each on the file on disk; members
  that are not regular or not listed are passed over; and the store is left as the
  extraction of the whole archive made it.
\<close>

theorem member_mismatch_raises:
  assumes "files w tar_path = Some b"
    and "tar_members E b = Some (pre @ m # post)"
    and "fs = extractall (OUTPUT_DIR E) (pre @ m # post) (files w)"
    and "\<forall>x\<in>set pre. checked track_checksums x \<longrightarrow>
           disk_digest E fs (path_join (OUTPUT_DIR E) (m_name x)) = map_of track_checksums (m_name x)"
    and "m_isfile m"
    and "map_of track_checksums (m_name m) = Some d"
    and "disk_digest E fs (path_join (OUTPUT_DIR E) (m_name m)) \<noteq> Some d"
  shows "unpack_and_verify E tar_path track_checksums w =
           (Inl (RuntimeError (''Checksum mismatch: '' @ path_join (OUTPUT_DIR E) (m_name m))),
            \<lparr>files = fs,
             trace = trace w @ ExtractAll tar_path (OUTPUT_DIR E) #
                     hash_events E fs
                       (map (\<lambda>x. path_join (OUTPUT_DIR E) (m_name x))
                          (filter (checked track_checksums) (pre @ [m])))\<rparr>)"
proof -
  let ?out = "OUTPUT_DIR E"
  let ?p = "path_join ?out (m_name m)"
  let ?w1 = "w\<lparr>files := fs, trace := trace w @ [ExtractAll tar_path ?out]\<rparr>"
  let ?hs = "hash_events E fs (map (\<lambda>x. path_join ?out (m_name x)) (filter (checked track_checksums) pre))"
  let ?w2 = "?w1\<lparr>trace := trace ?w1 @ ?hs\<rparr>"
  have unpack: "unpack_and_verify E tar_path track_checksums w =
                verify_members E track_checksums (pre @ m # post) ?w1"
    using assms(1,2,3) by (simp add: unpack_and_verify_members)
  have pre_ok: "\<forall>x\<in>set pre. checked track_checksums x \<longrightarrow>
           disk_digest E (files ?w1) (path_join ?out (m_name x)) = map_of track_checksums (m_name x)"
    using assms(4) by simp
  have skip: "verify_members E track_checksums (pre @ m # post) ?w1 =
              verify_members E track_checksums (m # post) ?w2"
    using verify_members_prefix [OF pre_ok, of "m # post"] by simp
  have "fs ?p \<noteq> None"
    unfolding assms(3) using assms(5) by (intro extractall_member) simp_all
  then obtain c where c: "fs ?p = Some c" by auto
  with assms(7) have neq: "sha256 E c \<noteq> d" by (simp add: disk_digest_def)
  have "disk_digest E (files ?w2) ?p = Some (sha256 E c)"
    using c by (simp add: disk_digest_def)
  from compute_sha256_digest [OF this]
  have last: "verify_members E track_checksums (m # post) ?w2 =
        (Inl (RuntimeError (''Checksum mismatch: '' @ ?p)),
         ?w2\<lparr>trace := trace ?w2 @ [Sha256 ?p (sha256 E c)]\<rparr>)"
    using assms(5,6) neq by (simp add: Let_def)
  have chk: "checked track_checksums m"
    using assms(5,6) by (simp add: checked_def)
  have "hash_events E fs (map (\<lambda>x. path_join ?out (m_name x)) (filter (checked track_checksums) (pre @ [m])))
        = ?hs @ [Sha256 ?p (sha256 E c)]"
    using chk c by (simp add: hash_events_append)
  with unpack skip last show ?thesis by simp
qed

lemma fixture_env:
  "sha256 E0 = rev"
  "tar_members E0 ''tar'' = Some members0"
  "sha256 E1 = rev"
  by (simp_all add: E0_def E1_def)

theorem member_mismatch_raises_witness:
  "unpack_and_verify E0 ''/repo/scripts/../data/audio/a.tar'' tracks2
     \<lparr>files = [''/repo/scripts/../data/audio/a.tar'' \<mapsto> ''tar''], trace = []\<rparr> =
   (Inl (RuntimeError ''Checksum mismatch: /repo/scripts/../data/audio/00/2.mp3''),
    \<lparr>files = extractall ''/repo/scripts/../data/audio'' members0
               [''/repo/scripts/../data/audio/a.tar'' \<mapsto> ''tar''],
     trace = [ExtractAll ''/repo/scripts/../data/audio/a.tar'' ''/repo/scripts/../data/audio'',
              Sha256 ''/repo/scripts/../data/audio/00/1.mp3'' ''eno'',
              Sha256 ''/repo/scripts/../data/audio/00/2.mp3'' ''owt'']\<rparr>)"
proof -
  let ?tp = "''/repo/scripts/../data/audio/a.tar''"
  let ?w = "\<lparr>files = [?tp \<mapsto> ''tar''], trace = []\<rparr>"
  let ?pre = "[\<lparr>m_name = ''00'', m_isfile = False, m_data = []\<rparr>,
               \<lparr>m_name = ''00/1.mp3'', m_isfile = True, m_data = ''one''\<rparr>]"
  let ?m = "\<lparr>m_name = ''00/2.mp3'', m_isfile = True, m_data = ''two''\<rparr>"
  let ?post = "[\<lparr>m_name = ''00/3.mp3'', m_isfile = True, m_data = ''three''\<rparr>]"
  let ?fs = "extractall (OUTPUT_DIR E0) (?pre @ ?m # ?post) (files ?w)"
  have h1: "files ?w ?tp = Some ''tar''" by simp
  have h2: "tar_members E0 ''tar'' = Some (?pre @ ?m # ?post)"
    by (simp add: E0_def members0_def)
  have h3: "?fs = extractall (OUTPUT_DIR E0) (?pre @ ?m # ?post) (files ?w)" by simp
  have h4: "\<forall>x\<in>set ?pre. checked tracks2 x \<longrightarrow>
           disk_digest E0 ?fs (path_join (OUTPUT_DIR E0) (m_name x)) = map_of tracks2 (m_name x)"
    by (simp add: checked_def tracks2_def disk_digest_def fixture_paths fixture_env path_join_def)
  have h5: "m_isfile ?m" by simp
  have h6: "map_of tracks2 (m_name ?m) = Some ''zzz''" by (simp add: tracks2_def)
  have h7: "disk_digest E0 ?fs (path_join (OUTPUT_DIR E0) (m_name ?m)) \<noteq> Some ''zzz''"
    by (simp add: disk_digest_def fixture_paths fixture_env path_join_def)
  from member_mismatch_raises [OF h1 h2 h3 h4 h5 h6 h7]
  show ?thesis
    by (simp add: fixture_paths fixture_env path_join_def checked_def tracks2_def members0_def)
qed

subsection \<open>Everything is extracted before anything is verified\<close>

text \<open>
  C10. \<open>unpack_and_verify\<close> extracts the whole archive first. Whatever it then returns,
  in particular when it raises a checksum error for some member, the store it leaves is
  the store after the extraction of every member, so the file of every regular member is
  on disk, those listed after a mismatching member included; and in the trace the one
  extraction comes before every hash of a member.
\<close>

theorem all_members_extracted_before_verification:
  assumes "files w tar_path = Some b"
    and "tar_members E b = Some ms"
    and "unpack_and_verify E tar_path track_checksums w = (r, w')"
  shows "files w' = extractall (OUTPUT_DIR E) ms (files w) \<and>
         (\<forall>m\<in>set ms. m_isfile m \<longrightarrow> files w' (path_join (OUTPUT_DIR E) (m_name m)) \<noteq> None) \<and>
         (\<exists>hs. trace w' = trace w @ ExtractAll tar_path (OUTPUT_DIR E) # hs \<and>
               (\<forall>e\<in>set hs. is_hash e))"
proof -
  let ?w1 = "w\<lparr>files := extractall (OUTPUT_DIR E) ms (files w),
                trace := trace w @ [ExtractAll tar_path (OUTPUT_DIR E)]\<rparr>"
  from assms have "verify_members E track_checksums ms ?w1 = (r, w')"
    by (simp add: unpack_and_verify_members)
  from verify_members_effect [OF this]
  have fs: "files w' = extractall (OUTPUT_DIR E) ms (files w)"
    and tr: "\<exists>hs. trace w' = trace w @ ExtractAll tar_path (OUTPUT_DIR E) # hs \<and>
               (\<forall>e\<in>set hs. is_hash e)"
    by auto
  have "\<forall>m\<in>set ms. m_isfile m \<longrightarrow> files w' (path_join (OUTPUT_DIR E) (m_name m)) \<noteq> None"
    unfolding fs by (simp add: extractall_member)
  with fs tr show ?thesis by blast
qed

theorem all_members_extracted_before_verification_witness:
  "fst (unpack_and_verify E0 ''/repo/scripts/../data/audio/a.tar'' tracks2
     \<lparr>files = [''/repo/scripts/../data/audio/a.tar'' \<mapsto> ''tar''], trace = []\<rparr>) =
     Inl (RuntimeError ''Checksum mismatch: /repo/scripts/../data/audio/00/2.mp3'') \<and>
   files (snd (unpack_and_verify E0 ''/repo/scripts/../data/audio/a.tar'' tracks2
        \<lparr>files = [''/repo/scripts/../data/audio/a.tar'' \<mapsto> ''tar''], trace = []\<rparr>))
        ''/repo/scripts/../data/audio/00/1.mp3'' = Some ''one'' \<and>
   files (snd (unpack_and_verify E0 ''/repo/scripts/../data/audio/a.tar'' tracks2
        \<lparr>files = [''/repo/scripts/../data/audio/a.tar'' \<mapsto> ''tar''], trace = []\<rparr>))
        ''/repo/scripts/../data/audio/00/2.mp3'' = Some ''two'' \<and>
   files (snd (unpack_and_verify E0 ''/repo/scripts/../data/audio/a.tar'' tracks2
        \<lparr>files = [''/repo/scripts/../data/audio/a.tar'' \<mapsto> ''tar''], trace = []\<rparr>))
        ''/repo/scripts/../data/audio/00/3.mp3'' = Some ''three''"
proof -
  let ?tp = "''/repo/scripts/../data/audio/a.tar''"
  let ?w = "\<lparr>files = [?tp \<mapsto> ''tar''], trace = []\<rparr>"
  let ?res = "unpack_and_verify E0 ?tp tracks2 ?w"
  have h1: "files ?w ?tp = Some ''tar''" by simp
  have h2: "tar_members E0 ''tar'' = Some members0" by (simp add: fixture_env)
  have h3: "?res = (fst ?res, snd ?res)" by simp
  have r: "fst ?res = Inl (RuntimeError ''Checksum mismatch: /repo/scripts/../data/audio/00/2.mp3'')"
    by (simp add: unpack_and_verify_def fixture_env fixture_paths members0_def tracks2_def
          compute_sha256_def path_join_def Let_def)
  from all_members_extracted_before_verification [OF h1 h2 h3] r
  show ?thesis
    by (simp add: members0_def fixture_paths path_join_def)
qed

subsection \<open>A verified archive\<close>

text \<open>
  C8. When \<open>fetch_and_verify\<close> handles an archive whose file was not on disk and returns
  normally, the archive file is not on disk afterwards. Its trace shows why it returned
  normally: the archive hashed to the digest of the archive manifest, it was extracted,
  the member hashes that followed raised nothing, and the last thing done was the
  deletion of the archive file.
\<close>

theorem verified_archive_deleted:
  assumes "files w (path_join (OUTPUT_DIR E) tar_name) = None"
    and "fetch_and_verify E tar_checksums track_checksums tar_name w = (Inr (), w')"
  shows "files w' (path_join (OUTPUT_DIR E) tar_name) = None \<and>
         (\<exists>d evs hs. map_of tar_checksums tar_name = Some d \<and>
            trace w' = trace w @ evs @
              [Sha256 (path_join (OUTPUT_DIR E) tar_name) d,
               ExtractAll (path_join (OUTPUT_DIR E) tar_name) (OUTPUT_DIR E)] @ hs @
              [Unlink (path_join (OUTPUT_DIR E) tar_name)] \<and>
            (\<forall>e\<in>set evs. \<not> is_extraction e) \<and> (\<forall>e\<in>set hs. is_hash e))"
proof -
  let ?tp = "path_join (OUTPUT_DIR E) tar_name"
  obtain r1 wa where dl: "download_file E (tar_url tar_name) ?tp w = (r1, wa)"
    by (cases "download_file E (tar_url tar_name) ?tp w")
  with assms have r1: "r1 = Inr ()"
    by (cases r1) (simp_all add: fetch_and_verify_def Let_def)
  obtain r2 wb where cs: "compute_sha256 E ?tp wa = (r2, wb)"
    by (cases "compute_sha256 E ?tp wa")
  with assms dl r1 obtain h where r2: "r2 = Inr h"
    by (cases r2) (simp_all add: fetch_and_verify_def Let_def)
  from assms dl r1 cs r2 obtain d where d: "map_of tar_checksums tar_name = Some d"
    by (cases "map_of tar_checksums tar_name") (simp_all add: fetch_and_verify_def Let_def)
  from assms dl r1 cs r2 d have hd: "h = d"
    by (auto simp: fetch_and_verify_def Let_def split: if_splits)
  obtain r3 wc where un: "unpack_and_verify E ?tp track_checksums wb = (r3, wc)"
    by (cases "unpack_and_verify E ?tp track_checksums wb")
  with assms dl r1 cs r2 d hd have r3: "r3 = Inr ()"
    by (cases r3) (simp_all add: fetch_and_verify_def Let_def)
  with assms dl r1 cs r2 d hd un have ul: "unlink ?tp wc = (Inr (), w')"
    by (simp add: fetch_and_verify_def Let_def)
  then have w': "w' = wc\<lparr>files := (files wc)(?tp := None), trace := trace wc @ [Unlink ?tp]\<rparr>"
    by (auto simp: unlink_def split: if_splits)
  from download_file_trace [OF dl] obtain evs where
    evs: "trace wa = trace w @ evs" "\<forall>e\<in>set evs. \<not> is_extraction e" by blast
  from cs r2 hd have wb: "wb = wa\<lparr>trace := trace wa @ [Sha256 ?tp d]\<rparr>"
    by (simp add: compute_sha256_Inr)
  from unpack_and_verify_effect [OF un] r3 obtain hs where
    hs: "trace wc = trace wb @ ExtractAll ?tp (OUTPUT_DIR E) # hs" "\<forall>e\<in>set hs. is_hash e"
    by auto
  have "trace w' = trace w @ evs @ [Sha256 ?tp d, ExtractAll ?tp (OUTPUT_DIR E)] @ hs @ [Unlink ?tp]"
    using w' hs(1) wb evs(1) by simp
  moreover have "files w' ?tp = None" using w' by simp
  ultimately show ?thesis using d evs(2) hs(2) by blast
qed

lemma fixture_run:
  "fst (fetch_and_verify E0 tars0 tracks0 ''a.tar'' w0) = Inr ()"
  "trace (snd (fetch_and_verify E0 tars0 tracks0 ''a.tar'' w0)) =
     [HttpGet ''https://cdn.freesound.org/mtg-jamendo/raw_30s/audio-low/a.tar'',
      TempFile ''/repo/scripts/../data/audio/tmpab12'',
      Move ''/repo/scripts/../data/audio/tmpab12'' ''/repo/scripts/../data/audio/a.tar'',
      Sha256 ''/repo/scripts/../data/audio/a.tar'' ''rat'',
      ExtractAll ''/repo/scripts/../data/audio/a.tar'' ''/repo/scripts/../data/audio'',
      Sha256 ''/repo/scripts/../data/audio/00/1.mp3'' ''eno'',
      Sha256 ''/repo/scripts/../data/audio/00/2.mp3'' ''owt'',
      Unlink ''/repo/scripts/../data/audio/a.tar'']"
  by (simp_all add: fetch_and_verify_def download_file_def compute_sha256_def
        unpack_and_verify_def unlink_def fixture_paths tar_url_def BASE_URL_def DATASET_def
        DATA_TYPE_def E0_def w0_def tars0_def tracks0_def members0_def path_join_def
        path_parent_def OUTPUT_DIR_def Let_def)

theorem verified_archive_deleted_witness:
  "fst (fetch_and_verify E0 tars0 tracks0 ''a.tar'' w0) = Inr () \<and>
   files w0 ''/repo/scripts/../data/audio/a.tar'' = None \<and>
   files (snd (fetch_and_verify E0 tars0 tracks0 ''a.tar'' w0))
     ''/repo/scripts/../data/audio/a.tar'' = None \<and>
   last (trace (snd (fetch_and_verify E0 tars0 tracks0 ''a.tar'' w0))) =
     Unlink ''/repo/scripts/../data/audio/a.tar''"
proof -
  let ?res = "fetch_and_verify E0 tars0 tracks0 ''a.tar'' w0"
  have tp: "path_join (OUTPUT_DIR E0) ''a.tar'' = ''/repo/scripts/../data/audio/a.tar''"
    by (simp add: fixture_paths)
  have h1: "files w0 (path_join (OUTPUT_DIR E0) ''a.tar'') = None"
    unfolding tp by (simp add: w0_def)
  have h2: "?res = (Inr (), snd ?res)"
    using fixture_run(1) by (simp add: prod_eq_iff)
  from verified_archive_deleted [OF h1 h2] h1 fixture_run show ?thesis
    unfolding tp by simp
qed

subsection \<open>Extraction only after the archive checksum\<close>

lemma hash_not_extraction: "is_hash e \<Longrightarrow> \<not> is_extraction e"
  by (cases e) (simp_all add: is_hash_def is_extraction_def)

lemma guarded_without_extraction:
  assumes "\<forall>e\<in>set evs. \<not> is_extraction e"
  shows "extraction_guarded tc out names evs"
  unfolding extraction_guarded_def
proof (intro allI impI)
  fix i p q
  assume "i < length evs" "evs ! i = ExtractAll p q"
  then have "is_extraction (evs ! i)" "evs ! i \<in> set evs"
    using nth_mem [of i evs] by (simp_all add: is_extraction_def)
  with assms show "0 < i \<and> (\<exists>n d. n \<in> set names \<and> map_of tc n = Some d \<and>
                   p = path_join out n \<and> evs ! (i - 1) = Sha256 p d)"
    by blast
qed

lemma guarded_append:
  assumes "extraction_guarded tc out names xs" and "extraction_guarded tc out names ys"
  shows "extraction_guarded tc out names (xs @ ys)"
  unfolding extraction_guarded_def
proof (intro allI impI)
  fix i p q
  assume i: "i < length (xs @ ys)" and e: "(xs @ ys) ! i = ExtractAll p q"
  show "0 < i \<and> (\<exists>n d. n \<in> set names \<and> map_of tc n = Some d \<and>
                   p = path_join out n \<and> (xs @ ys) ! (i - 1) = Sha256 p d)"
  proof (cases "i < length xs")
    case True
    with e have "xs ! i = ExtractAll p q" by (simp add: nth_append)
    with assms(1) True have "0 < i \<and> (\<exists>n d. n \<in> set names \<and> map_of tc n = Some d \<and>
                   p = path_join out n \<and> xs ! (i - 1) = Sha256 p d)"
      unfolding extraction_guarded_def by blast
    moreover from True have "i - 1 < length xs" by arith
    then have "(xs @ ys) ! (i - 1) = xs ! (i - 1)" by (simp add: nth_append)
    ultimately show ?thesis by simp
  next
    case False
    let ?j = "i - length xs"
    from False i have j: "?j < length ys" by simp
    from False e have "ys ! ?j = ExtractAll p q" by (simp add: nth_append)
    with assms(2) j have g: "0 < ?j \<and> (\<exists>n d. n \<in> set names \<and> map_of tc n = Some d \<and>
                   p = path_join out n \<and> ys ! (?j - 1) = Sha256 p d)"
      unfolding extraction_guarded_def by blast
    from g False have a: "\<not> i - 1 < length xs" by arith
    from g False have b: "i - 1 - length xs = ?j - 1" by arith
    from a b have "(xs @ ys) ! (i - 1) = ys ! (?j - 1)"
      by (simp add: nth_append)
    with g show ?thesis by auto
  qed
qed

lemma guarded_extraction:
  assumes "n \<in> set names" and "map_of tc n = Some d"
  shows "extraction_guarded tc out names
           [Sha256 (path_join out n) d, ExtractAll (path_join out n) q]"
  unfolding extraction_guarded_def using assms
  by (auto simp: less_Suc_eq nth_Cons')

lemma guarded_mono:
  assumes "extraction_guarded tc out names evs" and "set names \<subseteq> set names'"
  shows "extraction_guarded tc out names' evs"
  using assms unfolding extraction_guarded_def by blast

lemma fetch_and_verify_guarded:
  assumes "fetch_and_verify E tc trc n w = (r, w')"
  shows "\<exists>evs. trace w' = trace w @ evs \<and> extraction_guarded tc (OUTPUT_DIR E) [n] evs"
proof -
  let ?out = "OUTPUT_DIR E"
  let ?tp = "path_join ?out n"
  let ?G = "extraction_guarded tc ?out [n]"
  show ?thesis
  proof (cases "files w ?tp = None")
    case False
    with assms have "w' = w" by (simp add: fetch_and_verify_def)
    then have "trace w' = trace w @ []" by simp
    moreover have "?G []" by (simp add: guarded_without_extraction)
    ultimately show ?thesis by blast
  next
    case absent: True
    obtain r1 wa where dl: "download_file E (tar_url n) ?tp w = (r1, wa)"
      by (cases "download_file E (tar_url n) ?tp w")
    from download_file_trace [OF dl] obtain evs where
      evs: "trace wa = trace w @ evs" "\<forall>e\<in>set evs. \<not> is_extraction e" by blast
    show ?thesis
    proof (cases r1)
      case (Inl e)
      with assms absent dl have "w' = wa" by (simp add: fetch_and_verify_def)
      with evs show ?thesis using guarded_without_extraction by blast
    next
      case (Inr u)
      obtain r2 wb where cs: "compute_sha256 E ?tp wa = (r2, wb)"
        by (cases "compute_sha256 E ?tp wa")
      show ?thesis
      proof (cases r2)
        case (Inl e)
        with cs have "wb = wa" by (simp add: compute_sha256_Inl)
        with assms absent dl Inr cs Inl have "w' = wa" by (simp add: fetch_and_verify_def)
        with evs show ?thesis using guarded_without_extraction by blast
      next
        case r2: (Inr h)
        with cs have wb: "wb = wa\<lparr>trace := trace wa @ [Sha256 ?tp h]\<rparr>"
          by (simp add: compute_sha256_Inr)
        show ?thesis
        proof (cases "map_of tc n")
          case None
          with assms absent dl Inr cs r2 have "w' = wb" by (simp add: fetch_and_verify_def)
          with wb evs have "trace w' = trace w @ (evs @ [Sha256 ?tp h])" by simp
          moreover have "?G (evs @ [Sha256 ?tp h])"
            using evs(2) by (intro guarded_without_extraction) (auto simp: is_extraction_def)
          ultimately show ?thesis by blast
        next
          case (Some d)
          show ?thesis
          proof (cases "h = d")
            case False
            with assms absent dl Inr cs r2 Some have "w' = unlink_missing_ok ?tp wb"
              by (simp add: fetch_and_verify_def)
            with wb evs have "trace w' = trace w @ (evs @ [Sha256 ?tp h, Unlink ?tp])"
              by (simp add: unlink_missing_ok_def)
            moreover have "?G (evs @ [Sha256 ?tp h, Unlink ?tp])"
              using evs(2) by (intro guarded_without_extraction) (auto simp: is_extraction_def)
            ultimately show ?thesis by blast
          next
            case True
            obtain r3 wc where un: "unpack_and_verify E ?tp trc wb = (r3, wc)"
              by (cases "unpack_and_verify E ?tp trc wb")
            have "\<exists>t. trace w' = trace wc @ t \<and> (\<forall>e\<in>set t. \<not> is_extraction e)"
            proof (cases r3)
              case (Inl e)
              with assms absent dl Inr cs r2 Some True un have "w' = wc"
                by (simp add: fetch_and_verify_def)
              then have "trace w' = trace wc @ []" by simp
              then show ?thesis by fastforce
            next
              case r3: (Inr u3)
              with assms absent dl Inr cs r2 Some True un have "unlink ?tp wc = (r, w')"
                by (simp add: fetch_and_verify_def)
              then have "trace w' = trace wc @ [] \<or> trace w' = trace wc @ [Unlink ?tp]"
                by (auto simp: unlink_def split: if_splits)
              then show ?thesis
              proof
                assume "trace w' = trace wc @ []"
                then show ?thesis by fastforce
              next
                assume a: "trace w' = trace wc @ [Unlink ?tp]"
                have "\<forall>e\<in>set [Unlink ?tp]. \<not> is_extraction e" by (simp add: is_extraction_def)
                with a show ?thesis by blast
              qed
            qed
            then obtain t where t: "trace w' = trace wc @ t" "\<forall>e\<in>set t. \<not> is_extraction e"
              by blast
            from unpack_and_verify_effect [OF un]
            show ?thesis
            proof
              assume "wc = wb \<and> r3 \<noteq> Inr ()"
              with t wb evs have "trace w' = trace w @ (evs @ [Sha256 ?tp h] @ t)" by simp
              moreover have "?G (evs @ [Sha256 ?tp h] @ t)"
                using evs(2) t(2) by (intro guarded_without_extraction) (auto simp: is_extraction_def)
              ultimately show ?thesis by blast
            next
              assume "\<exists>b ms hs. files wb ?tp = Some b \<and> tar_members E b = Some ms \<and>
                files wc = extractall ?out ms (files wb) \<and>
                trace wc = trace wb @ ExtractAll ?tp ?out # hs \<and> (\<forall>e\<in>set hs. is_hash e)"
              then obtain hs where hs: "trace wc = trace wb @ ExtractAll ?tp ?out # hs"
                "\<forall>e\<in>set hs. is_hash e" by blast
              have tr: "trace w' = trace w @ (evs @ [Sha256 ?tp d, ExtractAll ?tp ?out] @ (hs @ t))"
                using t(1) hs(1) wb evs(1) True by simp
              have "\<forall>e\<in>set (hs @ t). \<not> is_extraction e"
                using hs(2) t(2) hash_not_extraction by auto
              then have g3: "?G (hs @ t)" by (rule guarded_without_extraction)
              have g1: "?G evs" using evs(2) by (rule guarded_without_extraction)
              have g2: "?G [Sha256 ?tp d, ExtractAll ?tp ?out]"
                using Some by (intro guarded_extraction) simp_all
              have "?G (evs @ [Sha256 ?tp d, ExtractAll ?tp ?out] @ (hs @ t))"
                by (rule guarded_append [OF g1 guarded_append [OF g2 g3]])
              with tr show ?thesis by blast
            qed
          qed
        qed
      qed
    qed
  qed
qed

lemma download_loop_guarded:
  assumes "download_loop E tc trc names w = (r, w')"
  shows "\<exists>evs. trace w' = trace w @ evs \<and> extraction_guarded tc (OUTPUT_DIR E) names evs"
  using assms
proof (induction names arbitrary: w)
  case Nil
  then have "trace w' = trace w @ []" by simp
  moreover have "extraction_guarded tc (OUTPUT_DIR E) [] []"
    by (simp add: guarded_without_extraction)
  ultimately show ?case by blast
next
  case (Cons n names)
  obtain r1 w1 where st: "fetch_and_verify E tc trc n w = (r1, w1)"
    by (cases "fetch_and_verify E tc trc n w")
  from fetch_and_verify_guarded [OF st] obtain evs where
    evs: "trace w1 = trace w @ evs" "extraction_guarded tc (OUTPUT_DIR E) [n] evs" by blast
  from evs(2) have g1: "extraction_guarded tc (OUTPUT_DIR E) (n # names) evs"
    by (rule guarded_mono) simp
  show ?case
  proof (cases r1)
    case (Inl e)
    with Cons.prems st have "w' = w1" by simp
    with evs(1) g1 show ?thesis by blast
  next
    case (Inr u)
    with Cons.prems st have "download_loop E tc trc names w1 = (r, w')" by simp
    from Cons.IH [OF this] obtain evs2 where
      evs2: "trace w' = trace w1 @ evs2" "extraction_guarded tc (OUTPUT_DIR E) names evs2" by blast
    from evs2(2) have g2: "extraction_guarded tc (OUTPUT_DIR E) (n # names) evs2"
      by (rule guarded_mono) auto
    from evs(1) evs2(1) have "trace w' = trace w @ (evs @ evs2)" by simp
    moreover from g1 g2 have "extraction_guarded tc (OUTPUT_DIR E) (n # names) (evs @ evs2)"
      by (rule guarded_append)
    ultimately show ?thesis by blast
  qed
qed

text \<open>
  C2. In every run of \<^verbatim>\<open>_download_tars\<close>, whatever it returns, each extraction in the
  events of the run comes directly after a hash of the same archive file, and the digest
  of that hash is the one the archive manifest, as loaded at the start of the run,
  records for one of the requested names: nothing of an archive is extracted before its
  archive-level comparison has passed.
\<close>

theorem extraction_only_after_archive_checksum:
  assumes "download_tars E tar_names w = (r, w')"
  shows "\<exists>evs. trace w' = trace w @ evs \<and>
           (\<forall>i<length evs. \<forall>p q. evs ! i = ExtractAll p q \<longrightarrow>
              0 < i \<and>
              (\<exists>n d tc. load_tar_checksums E w = Inr tc \<and> n \<in> set tar_names \<and>
                 map_of tc n = Some d \<and> p = path_join (OUTPUT_DIR E) n \<and>
                 evs ! (i - 1) = Sha256 p d))"
proof (cases "load_tar_checksums E w")
  case (Inl e)
  with assms have "trace w' = trace w @ []" by (simp add: download_tars_def)
  then show ?thesis by fastforce
next
  case tc: (Inr tc)
  show ?thesis
  proof (cases "load_track_checksums E w")
    case (Inl e)
    with assms tc have "trace w' = trace w @ []" by (simp add: download_tars_def)
    then show ?thesis by fastforce
  next
    case (Inr trc)
    with assms tc have "download_loop E tc trc tar_names w = (r, w')"
      by (simp add: download_tars_def)
    from download_loop_guarded [OF this] obtain evs where
      evs: "trace w' = trace w @ evs" "extraction_guarded tc (OUTPUT_DIR E) tar_names evs"
      by blast
    from evs(2) have "\<forall>i<length evs. \<forall>p q. evs ! i = ExtractAll p q \<longrightarrow>
              0 < i \<and>
              (\<exists>n d tc'. Inr tc = (Inr tc' :: error + (string \<times> string) list) \<and> n \<in> set tar_names \<and>
                 map_of tc' n = Some d \<and> p = path_join (OUTPUT_DIR E) n \<and>
                 evs ! (i - 1) = Sha256 p d)"
      unfolding extraction_guarded_def by blast
    with evs(1) tc show ?thesis by auto
  qed
qed

lemma fixture_manifests:
  "load_tar_checksums E0 w0 = Inr tars0"
  "load_track_checksums E0 w0 = Inr tracks0"
  by (simp_all add: load_tar_checksums_def load_track_checksums_def load_checksums_def
        SHA256_TARS_FILE_def SHA256_TRACKS_FILE_def ASSETS_DIR_def path_join_def
        E0_def w0_def tars0_def tracks0_def)

lemma fixture_download_tars:
  "download_tars E0 [''a.tar''] w0 = fetch_and_verify E0 tars0 tracks0 ''a.tar'' w0"
proof -
  obtain r1 v where st: "fetch_and_verify E0 tars0 tracks0 ''a.tar'' w0 = (r1, v)"
    by (cases "fetch_and_verify E0 tars0 tracks0 ''a.tar'' w0")
  with fixture_run(1) have "r1 = Inr ()" by simp
  with st show ?thesis by (simp add: download_tars_def fixture_manifests)
qed

theorem extraction_only_after_archive_checksum_witness:
  "fst (download_tars E0 [''a.tar''] w0) = Inr () \<and>
   (\<exists>evs. trace (snd (download_tars E0 [''a.tar''] w0)) = trace w0 @ evs \<and>
      evs ! 4 = ExtractAll ''/repo/scripts/../data/audio/a.tar'' ''/repo/scripts/../data/audio'' \<and>
      evs ! 3 = Sha256 ''/repo/scripts/../data/audio/a.tar'' ''rat'' \<and>
      (\<forall>i<length evs. \<forall>p q. evs ! i = ExtractAll p q \<longrightarrow>
              0 < i \<and>
              (\<exists>n d tc. load_tar_checksums E0 w0 = Inr tc \<and> n \<in> set [''a.tar''] \<and>
                 map_of tc n = Some d \<and> p = path_join (OUTPUT_DIR E0) n \<and>
                 evs ! (i - 1) = Sha256 p d)))"
proof -
  let ?res = "download_tars E0 [''a.tar''] w0"
  have h: "?res = (fst ?res, snd ?res)" by simp
  have t0: "trace w0 = []" by (simp add: w0_def)
  from extraction_only_after_archive_checksum [OF h] obtain evs where
    evs: "trace (snd ?res) = trace w0 @ evs"
      "\<forall>i<length evs. \<forall>p q. evs ! i = ExtractAll p q \<longrightarrow>
              0 < i \<and>
              (\<exists>n d tc. load_tar_checksums E0 w0 = Inr tc \<and> n \<in> set [''a.tar''] \<and>
                 map_of tc n = Some d \<and> p = path_join (OUTPUT_DIR E0) n \<and>
                 evs ! (i - 1) = Sha256 p d)"
    by blast
  from evs(1) t0 have e: "evs = trace (snd (fetch_and_verify E0 tars0 tracks0 ''a.tar'' w0))"
    by (simp add: fixture_download_tars)
  have "evs ! 4 = ExtractAll ''/repo/scripts/../data/audio/a.tar'' ''/repo/scripts/../data/audio''"
    "evs ! 3 = Sha256 ''/repo/scripts/../data/audio/a.tar'' ''rat''"
    unfolding e fixture_run(2) by simp_all
  moreover have "fst ?res = Inr ()" by (simp add: fixture_download_tars fixture_run(1))
  ultimately show ?thesis using evs by blast
qed

section \<open>The converter\<close>

lemma path_name_join:
  assumes "s \<noteq> []" and "CHR ''/'' \<notin> set s"
  shows "path_name (path_join d s) = s"
proof -
  from assms have "hd s \<noteq> CHR ''/''" by (cases s) auto
  with assms(1) have "path_join d s = d @ ''/'' @ s" by (simp add: path_join_def)
  moreover have "takeWhile (\<lambda>c. c \<noteq> CHR ''/'') (rev s @ ''/'' @ rev d) = rev s"
    using assms(2) by (auto simp: takeWhile_tail)
  ultimately show ?thesis by (simp add: path_name_def)
qed

lemma path_name_no_slash: "CHR ''/'' \<notin> set (path_name p)"
  unfolding path_name_def using set_takeWhileD [of "CHR ''/''" "\<lambda>c. c \<noteq> CHR ''/''" "rev p"]
  by auto

lemma rfind_suffix:
  assumes "c \<notin> set t"
  shows "rfind c (s @ c # t) = int (length s)"
proof -
  have "takeWhile (\<lambda>x. x \<noteq> c) (rev t @ c # rev s) = rev t"
    using assms by (auto simp: takeWhile_tail)
  then show ?thesis by (simp add: rfind_def)
qed

lemma path_stem_mp3:
  assumes "path_name src = t @ ''.mp3''" and "t \<noteq> []"
  shows "path_stem src = t"
proof -
  have "rfind (CHR ''.'') (t @ CHR ''.'' # ''mp3'') = int (length t)"
    by (rule rfind_suffix) simp
  with assms show ?thesis by (simp add: path_stem_def Let_def)
qed

lemma convert_cmd_shape:
  "convert_cmd src ! 1 = ''-y''"
  "convert_cmd src ! 5 = src"
  "last (convert_cmd src) = convert_dst src"
  by (simp_all add: convert_cmd_def)

lemma convert_one_runs_cmd:
  assumes "P (convert_cmd src) (files w) = Some (rc, fs')"
  shows "\<exists>t. trace (snd (convert_one P src w)) = trace w @ Run (convert_cmd src) rc # t"
  using assms
  by (auto simp: convert_one_def subprocess_run_def unlink_def Let_def split: if_splits)

lemma convert_dst_differs:
  assumes "path_name src = t @ ''.mp3''" and "t \<noteq> []"
  shows "convert_dst src \<noteq> src"
proof
  assume eq: "convert_dst src = src"
  have "CHR ''/'' \<notin> set (t @ ''.mp3'')"
    using path_name_no_slash [of src] assms(1) by simp
  then have "CHR ''/'' \<notin> set (t @ ''.wav'')" by simp
  then have "path_name (path_join DST_DIR (t @ ''.wav'')) = t @ ''.wav''"
    by (intro path_name_join) simp_all
  with assms have "path_name (convert_dst src) = t @ ''.wav''"
    by (simp add: convert_dst_def path_stem_mp3)
  with eq assms(1) show False by simp
qed

text \<open>
  C3. Let the source be a file \<open>track.mp3\<close> (its final component is a non-empty \<open>t\<close>
  followed by \<open>.mp3\<close>), and let the external program, started on the command of
  \<open>convert_one\<close>, exit with code \<open>rc\<close> and leave the store \<open>fs'\<close>. The command names the
  source as input and \<open>track.wav\<close> in the destination root as output. If \<open>rc\<close> is not zero,
  \<open>convert_one\<close> raises \<^verbatim>\<open>CalledProcessError\<close> and does nothing else: the store is the one
  the program left, so \<open>convert_one\<close> has deleted nothing. If \<open>rc\<close> is zero (and the
  source is still there to delete), \<open>convert_one\<close> returns the name of the source, the
  deletion of the source is the one event after the run of the program, and what the
  program wrote at the destination is untouched by it.
\<close>

theorem convert_one_deletes_only_after_success:
  assumes "path_name src = t @ ''.mp3''" and "t \<noteq> []"
    and "P (convert_cmd src) (files w) = Some (rc, fs')"
  shows "convert_dst src = path_join DST_DIR (t @ ''.wav'') \<and>
         convert_cmd src ! 5 = src \<and> last (convert_cmd src) = convert_dst src \<and>
         (rc \<noteq> 0 \<longrightarrow>
            convert_one P src w =
              (Inl (CalledProcessError rc (convert_cmd src)),
               \<lparr>files = fs', trace = trace w @ [Run (convert_cmd src) rc]\<rparr>)) \<and>
         (rc = 0 \<longrightarrow> fs' src \<noteq> None \<longrightarrow>
            convert_one P src w =
              (Inr (path_name src),
               \<lparr>files = fs'(src := None),
                trace = trace w @ [Run (convert_cmd src) 0, Unlink src]\<rparr>) \<and>
            (fs'(src := None)) (convert_dst src) = fs' (convert_dst src))"
proof -
  have dst: "convert_dst src = path_join DST_DIR (t @ ''.wav'')"
    using assms(1,2) by (simp add: convert_dst_def path_stem_mp3)
  have fail: "rc \<noteq> 0 \<longrightarrow>
            convert_one P src w =
              (Inl (CalledProcessError rc (convert_cmd src)),
               \<lparr>files = fs', trace = trace w @ [Run (convert_cmd src) rc]\<rparr>)"
    using assms(3) by (simp add: convert_one_def subprocess_run_def)
  have ok: "rc = 0 \<longrightarrow> fs' src \<noteq> None \<longrightarrow>
            convert_one P src w =
              (Inr (path_name src),
               \<lparr>files = fs'(src := None),
                trace = trace w @ [Run (convert_cmd src) 0, Unlink src]\<rparr>)"
    using assms(3) by (simp add: convert_one_def subprocess_run_def unlink_def)
  have keep: "(fs'(src := None)) (convert_dst src) = fs' (convert_dst src)"
    using convert_dst_differs [OF assms(1,2)] by simp
  from dst fail ok keep show ?thesis by (simp add: convert_cmd_shape)
qed

theorem convert_one_deletes_only_after_success_witness:
  "convert_one P0 ''data/audio/mp3/a/track.mp3'' c0 =
     (Inr ''track.mp3'',
      \<lparr>files = [''data/audio/wav/track.wav'' \<mapsto> ''RIFFID3''],
       trace = [Run (convert_cmd ''data/audio/mp3/a/track.mp3'') 0,
                Unlink ''data/audio/mp3/a/track.mp3'']\<rparr>) \<and>
   convert_dst ''data/audio/mp3/a/track.mp3'' = ''data/audio/wav/track.wav'' \<and>
   convert_one P0 ''data/audio/mp3/a/gone.mp3'' c0 =
     (Inl (CalledProcessError 1 (convert_cmd ''data/audio/mp3/a/gone.mp3'')),
      \<lparr>files = files c0, trace = [Run (convert_cmd ''data/audio/mp3/a/gone.mp3'') 1]\<rparr>)"
proof -
  let ?src = "''data/audio/mp3/a/track.mp3''"
  let ?bad = "''data/audio/mp3/a/gone.mp3''"
  let ?fs = "[?src \<mapsto> ''ID3'', ''data/audio/wav/track.wav'' \<mapsto> ''RIFFID3'']"
  have n1: "path_name ?src = ''track'' @ ''.mp3''" by (simp add: path_name_def)
  have n2: "path_name ?bad = ''gone'' @ ''.mp3''" by (simp add: path_name_def)
  have ne: "''track'' \<noteq> []" "''gone'' \<noteq> []" by simp_all
  have d1: "convert_dst ?src = ''data/audio/wav/track.wav''"
    by (simp add: convert_dst_def path_stem_def path_name_def rfind_def DST_DIR_def path_join_def Let_def)
  have p1: "P0 (convert_cmd ?src) (files c0) = Some (0, ?fs)"
    by (simp add: P0_def convert_cmd_shape d1 c0_def)
  have p2: "P0 (convert_cmd ?bad) (files c0) = Some (1, files c0)"
    by (simp add: P0_def convert_cmd_shape c0_def)
  from convert_one_deletes_only_after_success [of ?src "''track''" P0 c0 0 ?fs, OF n1 ne(1) p1]
       convert_one_deletes_only_after_success [of ?bad "''gone''" P0 c0 1 "files c0", OF n2 ne(2) p2]
  show ?thesis by (simp add: c0_def DST_DIR_def path_join_def path_name_def)
qed

text \<open>
  C9. The destination of \<open>convert_one\<close> depends on the stem of the source alone: two
  sources with the same stem, wherever they lie, get the same destination. For both the
  external program is started (the first event of \<open>convert_one\<close>, whenever the program
  can be started) on a command whose second argument is the overwrite flag \<^verbatim>\<open>-y\<close> and
  whose last argument is that shared destination.
\<close>

theorem equal_stems_share_destination:
  assumes "path_stem src1 = path_stem src2"
  shows "convert_dst src1 = convert_dst src2 \<and>
         (\<forall>src\<in>{src1, src2}.
            convert_cmd src ! 1 = ''-y'' \<and> last (convert_cmd src) = convert_dst src1 \<and>
            (\<forall>P w rc fs'. P (convert_cmd src) (files w) = Some (rc, fs') \<longrightarrow>
               (\<exists>t. trace (snd (convert_one P src w)) = trace w @ Run (convert_cmd src) rc # t)))"
proof -
  from assms have eq: "convert_dst src1 = convert_dst src2" by (simp add: convert_dst_def)
  have "\<forall>P w rc fs'. P (convert_cmd src) (files w) = Some (rc, fs') \<longrightarrow>
               (\<exists>t. trace (snd (convert_one P src w)) = trace w @ Run (convert_cmd src) rc # t)"
    for src
    using convert_one_runs_cmd by blast
  with eq show ?thesis
    using convert_cmd_shape(1) [of src1] convert_cmd_shape(1) [of src2]
    by (simp add: convert_cmd_shape(3))
qed

theorem equal_stems_share_destination_witness:
  "path_stem ''data/audio/mp3/a/x.mp3'' = path_stem ''data/audio/mp3/b/x.mp3'' \<and>
   ''data/audio/mp3/a/x.mp3'' \<noteq> ''data/audio/mp3/b/x.mp3'' \<and>
   convert_dst ''data/audio/mp3/a/x.mp3'' = ''data/audio/wav/x.wav'' \<and>
   convert_dst ''data/audio/mp3/b/x.mp3'' = ''data/audio/wav/x.wav'' \<and>
   last (convert_cmd ''data/audio/mp3/b/x.mp3'') = ''data/audio/wav/x.wav'' \<and>
   convert_cmd ''data/audio/mp3/b/x.mp3'' ! 1 = ''-y''"
proof -
  have s: "path_stem ''data/audio/mp3/a/x.mp3'' = path_stem ''data/audio/mp3/b/x.mp3''"
    by (simp add: path_stem_def path_name_def rfind_def Let_def)
  have d: "convert_dst ''data/audio/mp3/a/x.mp3'' = ''data/audio/wav/x.wav''"
    by (simp add: convert_dst_def path_stem_def path_name_def rfind_def DST_DIR_def path_join_def Let_def)
  from equal_stems_share_destination [OF s] s d show ?thesis by auto
qed

section \<open>Sampling\<close>

lemma bit_length_le: "n < 2 ^ k \<Longrightarrow> bit_length n \<le> k"
proof (induction k arbitrary: n)
  case 0
  then show ?case by (simp add: bit_length.simps)
next
  case (Suc k)
  show ?case
  proof (cases "n = 0")
    case True
    then show ?thesis by (simp add: bit_length.simps)
  next
    case False
    from Suc.prems have "n div 2 < 2 ^ k" by simp
    from Suc.IH [OF this] False show ?thesis by (simp add: bit_length.simps [of n])
  qed
qed

lemma round53_small: "n < 2 ^ 53 \<Longrightarrow> round53 n e = (n, e)"
  using bit_length_le [of n 53] by (simp add: round53_def)

lemma five_percent_exact:
  fixes n :: nat
  assumes "n < 2 ^ 52"
  shows "n * 7205759403792794 div 2 ^ 57 = n div 20"
proof (rule div_nat_eqI)
  have "20 * (n div 20) \<le> n" by simp
  then show "2 ^ 57 * (n div 20) \<le> n * 7205759403792794" by simp
next
  have "n < 20 * (n div 20) + 20" by (simp add: div_less_iff_less_mult flip: mult_Suc_right) 
  with assms show "n * 7205759403792794 < 2 ^ 57 * Suc (n div 20)" by simp
qed

lemma five_percent_rounded:
  fixes n :: nat
  assumes n: "n < 2 ^ 52"
  shows "int_of_float (round53 (n * 7205759403792794) (- 57)) = n div 20"
proof -
  let ?A = "n * 7205759403792794"
  let ?Q = "n div 20"
  let ?l = "bit_length ?A"
  show ?thesis
  proof (cases "?l \<le> 53")
    case True
    then have "round53 ?A (- 57) = (?A, - 57)" by (simp add: round53_def)
    then show ?thesis using five_percent_exact [OF n] by (simp add: int_of_float_def)
  next
    case False
    define s where "s = ?l - 53"
    define q where "q = ?A div 2 ^ s"
    define r where "r = ?A mod 2 ^ s"
    define h :: nat where "h = 2 ^ (s - 1)"
    define q' where "q' = (if h < r \<or> (r = h \<and> odd q) then q + 1 else q)"
    from False have s1: "1 \<le> s" by (simp add: s_def)
    from n have "?A < 2 ^ 105" by simp
    then have "?l \<le> 105" by (rule bit_length_le)
    then have s52: "s \<le> 52" by (simp add: s_def)
    have rnd: "round53 ?A (- 57) = (q', - 57 + int s)"
      using False by (simp add: round53_def Let_def s_def q_def r_def h_def q'_def)
    have neg: "\<not> 0 \<le> - 57 + int s" using s52 by simp
    have ex: "nat (57 - int s) = 57 - s" using s52 by simp
    have val: "int_of_float (round53 ?A (- 57)) = q' div 2 ^ (57 - s)"
      using neg ex by (simp add: rnd int_of_float_def)
    have pw: "(2::nat) ^ (57 - s) * 2 ^ s = 2 ^ 57"
      using s52 by (simp flip: power_add)
    have h2: "2 * h = 2 ^ s"
      using s1 by (simp add: h_def flip: power_Suc)
    have "(2::nat) ^ (s - 1) \<le> 2 ^ 51"
      using s52 by (intro power_increasing) simp_all
    then have h51: "h \<le> 2 ^ 51" by (simp add: h_def)
    have decomp: "q * 2 ^ s + r = ?A"
      unfolding q_def r_def by (rule div_mult_mod_eq)
    have Q1: "20 * ?Q \<le> n" by simp
    have Q2: "n < 20 * ?Q + 20" by (simp add: div_less_iff_less_mult flip: mult_Suc_right)
    have lower: "?Q * 2 ^ (57 - s) \<le> q'"
    proof -
      from Q1 have "?Q * 2 ^ 57 \<le> ?A" by simp
      then have "?Q * 2 ^ (57 - s) * 2 ^ s \<le> ?A" by (simp add: mult.assoc pw)
      then have "?Q * 2 ^ (57 - s) \<le> q"
        by (simp add: q_def less_eq_div_iff_mult_less_eq)
      then show ?thesis by (simp add: q'_def)
    qed
    have up: "q' * 2 ^ s \<le> ?A + h"
    proof (cases "h < r \<or> (r = h \<and> odd q)")
      case True
      then have hr: "h \<le> r" by auto
      from True have "q' * 2 ^ s = q * 2 ^ s + 2 ^ s" by (simp add: q'_def)
      also have "\<dots> = q * 2 ^ s + 2 * h" by (simp add: h2)
      also have "\<dots> \<le> q * 2 ^ s + r + h" using hr by simp
      finally show ?thesis by (simp add: decomp)
    next
      case False
      then have "q' * 2 ^ s = q * 2 ^ s" by (simp add: q'_def)
      with decomp show ?thesis by linarith
    qed
    have upper: "q' < Suc ?Q * 2 ^ (57 - s)"
    proof -
      from Q2 n h51 have "?A + h < Suc ?Q * 2 ^ 57" by simp
      with up have "q' * 2 ^ s < Suc ?Q * 2 ^ 57" by linarith
      then have "q' * 2 ^ s < (Suc ?Q * 2 ^ (57 - s)) * 2 ^ s"
        by (simp only: mult.assoc pw)
      then show ?thesis by simp
    qed
    have "q' div 2 ^ (57 - s) = ?Q"
      using lower upper by (intro div_nat_eqI) (simp_all add: mult.commute)
    with val show ?thesis by simp
  qed
qed

lemma sample_size_five_percent:
  assumes "n < 2 ^ 52"
  shows "sample_size n = max 1 (n div 20)"
proof -
  from assms have "n < 2 ^ 53" by simp
  then have "float_of_nat n = (n, 0)" by (simp add: float_of_nat_def round53_small)
  then show ?thesis
    using five_percent_rounded [OF assms]
    by (simp add: sample_size_def float_mul_def five_percent_def)
qed

lemma shuffle_loop_length: "length (fst (shuffle_loop rb i g x)) = length x"
  by (induction i arbitrary: g x) (auto split: prod.splits)

lemma shuffle_length: "length (fst (shuffle R g x)) = length x"
  by (simp add: shuffle_def shuffle_loop_length)

lemma sample_size_examples:
  "sample_size 0 = 1" "sample_size 19 = 1" "sample_size 39 = 1" "sample_size 40 = 2"
  "sample_size 100 = 5" "sample_size 1000 = 50"
  by (simp_all add: sample_size_five_percent)

lemma select_sample_loaded:
  assumes "load_tar_checksums E w = Inr tar_checksums"
  shows "select_sample R E seed w gi =
           (Inr (take (sample_size (length tar_checksums))
                   (fst (shuffle R (Random R seed) (map fst tar_checksums)))), gi)"
  using assms by (simp add: select_sample_def Let_def case_prod_beta)

lemma select_sample_shared_loaded:
  assumes "load_tar_checksums E w = Inr tar_checksums"
  shows "select_sample_shared R E w gi =
           (Inr (take (sample_size (length tar_checksums))
                   (fst (shuffle R gi (map fst tar_checksums)))),
            snd (shuffle R gi (map fst tar_checksums)))"
  using assms by (simp add: select_sample_shared_def Let_def case_prod_beta)

lemma fixture_shuffle:
  "fst (shuffle R0 (42 :: nat) [''a.tar'', ''b.tar'']) = [''b.tar'', ''a.tar'']"
  "fst (shuffle R0 (0 :: nat) [''a.tar'', ''b.tar'']) = [''b.tar'', ''a.tar'']"
  "fst (shuffle R0 (1 :: nat) [''a.tar'', ''b.tar'']) = [''a.tar'', ''b.tar'']"
  by (simp_all add: shuffle_def R0_def numeral_2_eq_2 [symmetric])

lemma fixture_sample: "select_sample R0 E0 SEED w0 gi = (Inr [''b.tar''], gi)"
  using fixture_shuffle(1)
  by (simp add: select_sample_loaded [OF fixture_manifests(1)] tars0_def
        sample_size_five_percent Random_def R0_def SEED_def)

text \<open>
  C4. For an archive manifest of \<open>N\<close> entries, \<open>N\<close> at least 1, \<open>select_sample\<close> returns
  exactly \<open>max 1 (N div 20)\<close> names, that is \<open>max(1, floor(0.05 * N))\<close>. The code computes
  the product in binary64; up to \<open>2 ^ 52\<close> entries (more than any list that fits in
  memory) the rounded product has the same integer part as the exact one.
\<close>

theorem sample_has_five_percent:
  assumes "load_tar_checksums E w = Inr tar_checksums"
    and "1 \<le> length tar_checksums"
    and "length tar_checksums < 2 ^ 52"
  shows "\<exists>sample. select_sample R E seed w gi = (Inr sample, gi) \<and>
           length sample = max 1 (length tar_checksums div 20)"
proof -
  let ?n = "length tar_checksums"
  have "max 1 (?n div 20) \<le> ?n" using assms(2) by simp
  then have len: "length (take (sample_size ?n)
               (fst (shuffle R (Random R seed) (map fst tar_checksums)))) = max 1 (?n div 20)"
    using assms(3) by (simp add: sample_size_five_percent shuffle_length)
  from select_sample_loaded [OF assms(1), of R seed gi] len show ?thesis by blast
qed

theorem sample_has_five_percent_witness:
  "load_tar_checksums E0 w0 = Inr tars0 \<and> length tars0 = 2 \<and>
   select_sample R0 E0 SEED w0 (0 :: nat) = (Inr [''b.tar''], 0) \<and>
   (\<exists>sample. select_sample R0 E0 SEED w0 (0 :: nat) = (Inr sample, 0) \<and>
      length sample = max 1 (length tars0 div 20))"
proof -
  have h1: "load_tar_checksums E0 w0 = Inr tars0" by (simp add: fixture_manifests)
  have h2: "1 \<le> length tars0" by (simp add: tars0_def)
  have h3: "length tars0 < 2 ^ 52" by (simp add: tars0_def)
  have l: "length tars0 = 2" by (simp add: tars0_def)
  from sample_has_five_percent [OF h1 h2 h3, of R0 SEED "0 :: nat"] h1 l fixture_sample [of 0]
  show ?thesis by simp
qed

subsection \<open>Determinism\<close>

text \<open>
  What the sample would be if the shuffle drew from the shared generator of the process:
  in one and the same world, two states of that generator give two different samples.
  So the statement of C5 below is not true of every way of writing line 145.
\<close>

lemma shared_generator_sample_varies:
  "fst (select_sample_shared R0 E0 w0 (0 :: nat)) = Inr [''b.tar''] \<and>
   fst (select_sample_shared R0 E0 w0 (1 :: nat)) = Inr [''a.tar'']"
  using fixture_shuffle(2,3)
  by (simp add: select_sample_shared_loaded [OF fixture_manifests(1)] tars0_def
        sample_size_five_percent)

text \<open>
  C5. Take two invocations of \<open>select_sample\<close> with the same seed, in any two worlds that
  hold the same archive manifest file and with the shared generator of the process in any
  two states (the second invocation may come after the first, after other downloads and
  after other uses of \<^verbatim>\<open>random\<close>). They return the same names in the same order, or
  fail in the same way: the generator that shuffles is constructed from the seed in
  line 145 and the shared one is neither read nor advanced.
\<close>

theorem select_sample_deterministic:
  assumes "files w (SHA256_TARS_FILE E) = files v (SHA256_TARS_FILE E)"
  shows "fst (select_sample R E seed w gi) = fst (select_sample R E seed v gj) \<and>
         snd (select_sample R E seed w gi) = gi \<and> snd (select_sample R E seed v gj) = gj"
proof -
  from assms have same: "load_tar_checksums E w = load_tar_checksums E v"
    by (simp add: load_tar_checksums_def load_checksums_def)
  show ?thesis
  proof (cases "load_tar_checksums E v")
    case (Inl e)
    with same show ?thesis by (simp add: select_sample_def)
  next
    case (Inr tar_checksums)
    with same have "load_tar_checksums E w = Inr tar_checksums" by simp
    then show ?thesis
      by (simp add: select_sample_loaded [OF Inr] select_sample_loaded [of E w tar_checksums])
  qed
qed

theorem select_sample_deterministic_witness:
  "files w0 (SHA256_TARS_FILE E0) = files w1 (SHA256_TARS_FILE E0) \<and>
   files w0 ''/repo/scripts/../data/audio/a.tar'' \<noteq> files w1 ''/repo/scripts/../data/audio/a.tar'' \<and>
   fst (select_sample R0 E0 SEED w0 (0 :: nat)) = fst (select_sample R0 E0 SEED w1 (1 :: nat)) \<and>
   select_sample R0 E0 SEED w0 (0 :: nat) = (Inr [''b.tar''], 0) \<and>
   snd (select_sample R0 E0 SEED w1 (1 :: nat)) = 1 \<and>
   fst (select_sample_shared R0 E0 w0 (0 :: nat)) \<noteq> fst (select_sample_shared R0 E0 w0 (1 :: nat))"
proof -
  have h: "files w0 (SHA256_TARS_FILE E0) = files w1 (SHA256_TARS_FILE E0)"
    by (simp add: w1_def w0_def SHA256_TARS_FILE_def ASSETS_DIR_def path_join_def E0_def)
  have d: "files w0 ''/repo/scripts/../data/audio/a.tar'' \<noteq> files w1 ''/repo/scripts/../data/audio/a.tar''"
    by (simp add: w1_def w0_def)
  note t = select_sample_deterministic [OF h, of R0 SEED "0 :: nat" "1 :: nat"]
  from t have a: "fst (select_sample R0 E0 SEED w0 (0 :: nat)) =
                  fst (select_sample R0 E0 SEED w1 (1 :: nat))" by blast
  from t have b: "snd (select_sample R0 E0 SEED w1 (1 :: nat)) = 1" by blast
  have c: "select_sample R0 E0 SEED w0 (0 :: nat) = (Inr [''b.tar''], 0)"
    by (rule fixture_sample)
  have e: "fst (select_sample_shared R0 E0 w0 (0 :: nat)) \<noteq>
           fst (select_sample_shared R0 E0 w0 (1 :: nat))"
    using shared_generator_sample_varies by simp
  from h d a c b e show ?thesis by blast
qed

end
